theory Spec2Isabelle
  imports Complex_Main "HOL-Library.Sublist" "HOL-Library.Log_Nat"
begin

section \<open>Values of the parsed fio report\<close>

text \<open>
  \<^verbatim>\<open>fio_metrics.py\<close> works on whatever \<^verbatim>\<open>json.load\<close> returns: \<^verbatim>\<open>None\<close>, booleans,
  integers, floats, strings, lists and dicts. A dict is an association list in key order
  (\<^verbatim>\<open>json.load\<close> keeps one entry per key, so the keys of a parsed dict are distinct).
  A string is a list of code points; \<^typ>\<open>char\<close> covers the code points below 256, so text
  with other code points (among them the decimal digits of other scripts, which \<^verbatim>\<open>int\<close>
  accepts) is outside the model.

  A float is an IEEE 754 double: a rational number, an infinity or NaN. The two zeros are
  not told apart (they are equal in Python, and both falsy). Every operation on floats
  rounds its exact result to the nearest double, ties to even, as the hardware does.
\<close>

datatype pyfloat = Fin rat | PosInf | NegInf | NaN

datatype json =
    JNull
  | JBool bool
  | JInt int
  | JFloat pyfloat
  | JStr string
  | JList "json list"
  | JObj "(string \<times> json) list"

text \<open>A Python number: \<^verbatim>\<open>int\<close> (unbounded) or \<^verbatim>\<open>float\<close>.\<close>

datatype pynum = PInt int | PFloat pyfloat

text \<open>
  The exceptions the program can raise: its own \<^verbatim>\<open>NoValuesError\<close> with its message, and
  the builtin \<^verbatim>\<open>KeyError\<close> (with the missing key), \<^verbatim>\<open>TypeError\<close>, \<^verbatim>\<open>ValueError\<close> and
  \<^verbatim>\<open>OverflowError\<close>.
\<close>

datatype pyerror = NoValuesError string | KeyError string | TypeError | ValueError | OverflowError

definition err_bind :: "pyerror + 'a \<Rightarrow> ('a \<Rightarrow> pyerror + 'b) \<Rightarrow> pyerror + 'b" where
  "err_bind m f = (case m of Inl e \<Rightarrow> Inl e | Inr x \<Rightarrow> f x)"

subsection \<open>Python operators on these values\<close>

text \<open>\<^verbatim>\<open>not v\<close> is \<open>\<not> truthy v\<close>.\<close>

fun truthy :: "json \<Rightarrow> bool" where
  "truthy JNull = False"
| "truthy (JBool b) = b"
| "truthy (JInt i) = (i \<noteq> 0)"
| "truthy (JFloat f) = (f \<noteq> Fin 0)"
| "truthy (JStr s) = (s \<noteq> [])"
| "truthy (JList xs) = (xs \<noteq> [])"
| "truthy (JObj kvs) = (kvs \<noteq> [])"

text \<open>
  \<^verbatim>\<open>key in v\<close> for a string key: key membership in a dict, element membership in a list,
  substring test in a string, \<^verbatim>\<open>TypeError\<close> otherwise.
\<close>

fun py_in :: "string \<Rightarrow> json \<Rightarrow> pyerror + bool" where
  "py_in k (JObj kvs) = Inr (k \<in> fst ` set kvs)"
| "py_in k (JList xs) = Inr (JStr k \<in> set xs)"
| "py_in k (JStr s) = Inr (sublist k s)"
| "py_in k v = Inl TypeError"

text \<open>\<^verbatim>\<open>v[key]\<close> for a string key: only a dict can be indexed by a string.\<close>

fun py_getitem :: "json \<Rightarrow> string \<Rightarrow> pyerror + json" where
  "py_getitem (JObj kvs) k = (case map_of kvs k of None \<Rightarrow> Inl (KeyError k) | Some v \<Rightarrow> Inr v)"
| "py_getitem v k = Inl TypeError"

text \<open>
  \<^verbatim>\<open>for job in v\<close>: the elements of a list, the keys of a dict, the characters of a string.
\<close>

fun py_iter :: "json \<Rightarrow> pyerror + json list" where
  "py_iter (JList xs) = Inr xs"
| "py_iter (JObj kvs) = Inr (map (\<lambda>kv. JStr (fst kv)) kvs)"
| "py_iter (JStr s) = Inr (map (\<lambda>c. JStr [c]) s)"
| "py_iter v = Inl TypeError"

subsection \<open>Doubles\<close>

text \<open>Rounding to the nearest integer, a tie going to the even one.\<close>

definition round_half_even :: "rat \<Rightarrow> int" where
  "round_half_even q =
     (let f = \<lfloor>q\<rfloor>; d = q - of_int f
      in if d < 1 / 2 then f else if 1 / 2 < d then f + 1 else if even f then f else f + 1)"

text \<open>The binary exponent of a non-zero rational: \<open>2 powi e \<le> \<bar>x\<bar> < 2 powi (e + 1)\<close>.\<close>

definition float_exp :: "rat \<Rightarrow> int" where
  "float_exp x =
     (let a = \<bar>x\<bar> in if 1 \<le> a then bitlen \<lfloor>a\<rfloor> - 1 else - bitlen (\<lceil>1 / a\<rceil> - 1))"

text \<open>
  The nearest number with a significand of 53 bits and an exponent of at least \<open>-1022\<close>
  (below that the spacing stays \<open>2 powi (-1074)\<close>, the subnormal numbers), ties to even;
  the exponent is not bounded above here.
\<close>

definition round_double :: "rat \<Rightarrow> rat" where
  "round_double x =
     (if x = 0 then 0
      else let e = max (float_exp x) (- 1022); u = 2 powi (e - 52)
           in of_int (round_half_even (x / u)) * u)"

text \<open>The double that an exact result is rounded to: an infinity from \<open>2 ^ 1024\<close> on.\<close>

definition fl :: "rat \<Rightarrow> pyfloat" where
  "fl x =
     (let r = round_double x
      in if 2 ^ 1024 \<le> \<bar>r\<bar> then (if 0 < x then PosInf else NegInf) else Fin r)"

fun float_neg :: "pyfloat \<Rightarrow> bool" where
  "float_neg (Fin a) = (a < 0)"
| "float_neg NegInf = True"
| "float_neg f = False"

fun float_add :: "pyfloat \<Rightarrow> pyfloat \<Rightarrow> pyfloat" where
  "float_add (Fin a) (Fin b) = fl (a + b)"
| "float_add NaN y = NaN"
| "float_add x NaN = NaN"
| "float_add PosInf NegInf = NaN"
| "float_add NegInf PosInf = NaN"
| "float_add (Fin a) y = y"
| "float_add x y = x"

fun float_mul :: "pyfloat \<Rightarrow> pyfloat \<Rightarrow> pyfloat" where
  "float_mul (Fin a) (Fin b) = fl (a * b)"
| "float_mul NaN y = NaN"
| "float_mul x NaN = NaN"
| "float_mul x y =
     (if x = Fin 0 \<or> y = Fin 0 then NaN
      else if float_neg x = float_neg y then PosInf else NegInf)"

text \<open>\<^verbatim>\<open>x / 1000\<close> for a float \<^verbatim>\<open>x\<close>.\<close>

fun float_div_1000 :: "pyfloat \<Rightarrow> pyfloat" where
  "float_div_1000 (Fin a) = fl (a / 1000)"
| "float_div_1000 f = f"

text \<open>
  \<^verbatim>\<open>x // 1000\<close> for a float \<^verbatim>\<open>x\<close>, as CPython computes it: the remainder \<^verbatim>\<open>fmod(x, 1000)\<close> is
  exact and has the sign of \<^verbatim>\<open>x\<close>; the quotient \<^verbatim>\<open>(x - mod) / 1000\<close> takes two rounded
  operations, is decreased by one for a negative remainder, and is then brought to an
  integer. An infinity or NaN gives NaN.
\<close>

fun float_floordiv_1000 :: "pyfloat \<Rightarrow> pyfloat" where
  "float_floordiv_1000 (Fin a) =
     (let md = a - 1000 * of_int (if 0 \<le> a then \<lfloor>a / 1000\<rfloor> else \<lceil>a / 1000\<rceil>);
          d0 = round_double (round_double (a - md) / 1000);
          dv = (if md < 0 then round_double (d0 - 1) else d0);
          f = of_int \<lfloor>dv\<rfloor>
      in Fin (if 1 / 2 < dv - f then f + 1 else f))"
| "float_floordiv_1000 f = NaN"

subsection \<open>Numbers\<close>

text \<open>
  A value used as an operand of \<^verbatim>\<open>+\<close> with a number: numbers and booleans (\<^verbatim>\<open>True\<close> is 1)
  are accepted, anything else ends in \<^verbatim>\<open>TypeError\<close>.
\<close>

fun as_num :: "json \<Rightarrow> pyerror + pynum" where
  "as_num (JInt i) = Inr (PInt i)"
| "as_num (JFloat f) = Inr (PFloat f)"
| "as_num (JBool b) = Inr (PInt (if b then 1 else 0))"
| "as_num v = Inl TypeError"

text \<open>
  An \<^verbatim>\<open>int\<close> that meets a float is converted to a float first: the nearest double, and
  \<^verbatim>\<open>OverflowError\<close> when that would be an infinity.
\<close>

definition int_to_float :: "int \<Rightarrow> pyerror + pyfloat" where
  "int_to_float a = (case fl (of_int a) of Fin r \<Rightarrow> Inr (Fin r) | f \<Rightarrow> Inl OverflowError)"

fun py_add :: "pynum \<Rightarrow> pynum \<Rightarrow> pyerror + pynum" where
  "py_add (PInt a) (PInt b) = Inr (PInt (a + b))"
| "py_add (PInt a) (PFloat y) = err_bind (int_to_float a) (\<lambda>x. Inr (PFloat (float_add x y)))"
| "py_add (PFloat x) (PInt b) = err_bind (int_to_float b) (\<lambda>y. Inr (PFloat (float_add x y)))"
| "py_add (PFloat x) (PFloat y) = Inr (PFloat (float_add x y))"

fun py_mul :: "pynum \<Rightarrow> pynum \<Rightarrow> pyerror + pynum" where
  "py_mul (PInt a) (PInt b) = Inr (PInt (a * b))"
| "py_mul (PInt a) (PFloat y) = err_bind (int_to_float a) (\<lambda>x. Inr (PFloat (float_mul x y)))"
| "py_mul (PFloat x) (PInt b) = err_bind (int_to_float b) (\<lambda>y. Inr (PFloat (float_mul x y)))"
| "py_mul (PFloat x) (PFloat y) = Inr (PFloat (float_mul x y))"

text \<open>\<^verbatim>\<open>x // 1000\<close>: floor division, an \<^verbatim>\<open>int\<close> for an \<^verbatim>\<open>int\<close> and a float for a float.\<close>

fun py_floordiv_1000 :: "pynum \<Rightarrow> pynum" where
  "py_floordiv_1000 (PInt a) = PInt (a div 1000)"
| "py_floordiv_1000 (PFloat f) = PFloat (float_floordiv_1000 f)"

text \<open>
  \<^verbatim>\<open>x / 1000\<close>: always a float. The quotient of two \<^verbatim>\<open>int\<close>s is the double nearest to the exact
  quotient, and \<^verbatim>\<open>OverflowError\<close> when that would be an infinity.
\<close>

fun py_truediv_1000 :: "pynum \<Rightarrow> pyerror + pyfloat" where
  "py_truediv_1000 (PInt a) =
     (case fl (of_int a / 1000) of Fin r \<Rightarrow> Inr (Fin r) | f \<Rightarrow> Inl OverflowError)"
| "py_truediv_1000 (PFloat f) = Inr (float_div_1000 f)"

text \<open>
  \<^verbatim>\<open>round(x)\<close> of a float: the nearest integer, a tie going to the even one; an infinity
  raises \<^verbatim>\<open>OverflowError\<close> and NaN raises \<^verbatim>\<open>ValueError\<close>.
\<close>

fun py_round :: "pyfloat \<Rightarrow> pyerror + int" where
  "py_round (Fin q) = Inr (round_half_even q)"
| "py_round NaN = Inl ValueError"
| "py_round f = Inl OverflowError"

text \<open>\<^verbatim>\<open>round(x / 1000)\<close>.\<close>

definition round_div_1000 :: "pynum \<Rightarrow> pyerror + int" where
  "round_div_1000 x = err_bind (py_truediv_1000 x) py_round"

text \<open>\<^verbatim>\<open>x == n\<close> for a number \<^verbatim>\<open>x\<close> and an \<^verbatim>\<open>int\<close> \<^verbatim>\<open>n\<close>: the values are compared exactly.\<close>

fun num_eq_int :: "pynum \<Rightarrow> int \<Rightarrow> bool" where
  "num_eq_int (PInt a) n = (a = n)"
| "num_eq_int (PFloat (Fin q)) n = (q = of_int n)"
| "num_eq_int (PFloat f) n = False"

subsection \<open>Text\<close>

definition is_digit :: "char \<Rightarrow> bool" where
  "is_digit c = (c \<in> set ''0123456789'')"

definition is_alpha :: "char \<Rightarrow> bool" where
  "is_alpha c =
     (c \<in> set ''ABCDEFGHIJKLMNOPQRSTUVWXYZ'' \<or> c \<in> set ''abcdefghijklmnopqrstuvwxyz'')"

text \<open>\<^verbatim>\<open>str.lower\<close> on ASCII text.\<close>

definition lower_char :: "char \<Rightarrow> char" where
  "lower_char c =
     (case map_of (zip ''ABCDEFGHIJKLMNOPQRSTUVWXYZ'' ''abcdefghijklmnopqrstuvwxyz'') c of
        None \<Rightarrow> c | Some l \<Rightarrow> l)"

definition lower :: "string \<Rightarrow> string" where
  "lower s = map lower_char s"

definition digit_val :: "char \<Rightarrow> nat" where
  "digit_val c = (case map_of (zip ''0123456789'' [0, 1, 2, 3, 4, 5, 6, 7, 8, 9]) c of
                    None \<Rightarrow> 0 | Some d \<Rightarrow> d)"

text \<open>The value of a run of decimal digits, most significant first.\<close>

definition digits_val :: "string \<Rightarrow> nat" where
  "digits_val s = foldl (\<lambda>a c. 10 * a + digit_val c) 0 s"

text \<open>
  \<^verbatim>\<open>re.findall('[0-9]+|[A-Za-z]+', value)\<close>: scanning from the left, a digit starts the
  longest run of digits, a letter the longest run of letters, any other character is
  skipped; the runs are returned in order.
\<close>

function findall :: "string \<Rightarrow> string list" where
  "findall [] = []"
| "findall (c # cs) =
     (if is_digit c then (c # takeWhile is_digit cs) # findall (dropWhile is_digit cs)
      else if is_alpha c then (c # takeWhile is_alpha cs) # findall (dropWhile is_alpha cs)
      else findall cs)"
  by pat_completeness auto
termination
  by (relation "measure length") (auto simp: length_dropWhile_le less_Suc_eq_le)

text \<open>
  \<^verbatim>\<open>int(s)\<close> for a string: surrounding blanks are dropped, one sign is allowed, and the
  rest is decimal digits in which single underscores may separate digits. The blanks are
  tab to carriage return and the space, and the two blanks above 127 (which CPython turns
  into spaces in a string that is not ASCII). CPython 3.11 refuses more than 4300 digits.
\<close>

definition int_max_str_digits :: nat where
  "int_max_str_digits = 4300"

definition is_space :: "char \<Rightarrow> bool" where
  "is_space c =
     (c \<in> set [CHR 0x09, CHR 0x0A, CHR 0x0B, CHR 0x0C, CHR 0x0D, CHR 0x20, CHR 0x85, CHR 0xA0])"

definition strip :: "string \<Rightarrow> string" where
  "strip s = rev (dropWhile is_space (rev (dropWhile is_space s)))"

fun int_body_ok :: "string \<Rightarrow> bool" where
  "int_body_ok [] = False"
| "int_body_ok [c] = is_digit c"
| "int_body_ok (c # d # cs) =
     (is_digit c \<and> (if d = CHR ''_'' then int_body_ok cs else int_body_ok (d # cs)))"

definition int_of_body :: "string \<Rightarrow> pyerror + int" where
  "int_of_body s =
     (if int_body_ok s \<and> length (filter is_digit s) \<le> int_max_str_digits
      then Inr (int (digits_val (filter is_digit s))) else Inl ValueError)"

definition int_of_str :: "string \<Rightarrow> pyerror + int" where
  "int_of_str s =
     (case strip s of
        [] \<Rightarrow> Inl ValueError
      | c # cs \<Rightarrow>
          if c = CHR ''-'' then err_bind (int_of_body cs) (\<lambda>n. Inr (- n))
          else if c = CHR ''+'' then int_of_body cs
          else int_of_body (c # cs))"

text \<open>
  \<^verbatim>\<open>int(v)\<close>: a float is truncated towards zero; an infinity raises \<^verbatim>\<open>OverflowError\<close> and
  NaN raises \<^verbatim>\<open>ValueError\<close>.
\<close>

fun py_int :: "json \<Rightarrow> pyerror + int" where
  "py_int (JInt i) = Inr i"
| "py_int (JBool b) = Inr (if b then 1 else 0)"
| "py_int (JFloat (Fin q)) = Inr (if 0 \<le> q then \<lfloor>q\<rfloor> else \<lceil>q\<rceil>)"
| "py_int (JFloat NaN) = Inl ValueError"
| "py_int (JFloat f) = Inl OverflowError"
| "py_int (JStr s) = int_of_str s"
| "py_int v = Inl TypeError"

section \<open>The program\<close>

subsection \<open>Keys and conversion tables\<close>

definition JOBNAME :: string where "JOBNAME = ''jobname''"
definition GLOBAL_OPTS :: string where "GLOBAL_OPTS = ''global options''"
definition JOBS :: string where "JOBS = ''jobs''"
definition JOB_OPTS :: string where "JOB_OPTS = ''job options''"
definition FILESIZE :: string where "FILESIZE = ''filesize''"
definition NUMJOBS :: string where "NUMJOBS = ''numjobs''"
definition TIMESTAMP_MS :: string where "TIMESTAMP_MS = ''timestamp_ms''"
definition RUNTIME :: string where "RUNTIME = ''runtime''"
definition RAMPTIME :: string where "RAMPTIME = ''ramp_time''"
definition READ :: string where "READ = ''read''"
definition IOPS :: string where "IOPS = ''iops''"
definition BW :: string where "BW = ''bw''"
definition LAT :: string where "LAT = ''lat_ns''"
definition MIN_key :: string where "MIN_key = ''min''"
definition MAX_key :: string where "MAX_key = ''max''"
definition MEAN :: string where "MEAN = ''mean''"

definition FILESIZE_CONVERSION :: "(string \<times> pynum) list" where
  "FILESIZE_CONVERSION =
     [(''b'', PFloat (fl (1 / 1000))),
      (''k'', PInt 1),
      (''kb'', PInt 1),
      (''m'', PInt (10 ^ 3)),
      (''mb'', PInt (10 ^ 3)),
      (''g'', PInt (10 ^ 6)),
      (''gb'', PInt (10 ^ 6)),
      (''t'', PInt (10 ^ 9)),
      (''tb'', PInt (10 ^ 9)),
      (''p'', PInt (10 ^ 12)),
      (''pb'', PInt (10 ^ 12))]"

definition RAMPTIME_CONVERSION :: "(string \<times> pynum) list" where
  "RAMPTIME_CONVERSION =
     [(''us'', PFloat (fl (1 / 1000))),
      (''ms'', PInt 1),
      (''s'', PInt 1000),
      (''m'', PInt (60 * 1000)),
      (''h'', PInt (3600 * 1000)),
      (''d'', PInt (24 * 3600 * 1000))]"

subsection \<open>\<^verbatim>\<open>_convert_value\<close>\<close>

text \<open>
  \<^verbatim>\<open>num, unit = re.findall(...)\<close> raises \<^verbatim>\<open>ValueError\<close> unless there are exactly two runs;
  \<^verbatim>\<open>conversion_dict[unit.lower()]\<close> raises \<^verbatim>\<open>KeyError\<close>; then \<^verbatim>\<open>int(num)\<close> raises
  \<^verbatim>\<open>ValueError\<close> when the first run is made of letters or has more than 4300 digits; the
  product with a float multiplier raises \<^verbatim>\<open>OverflowError\<close> when the number has no double.
\<close>

definition int_of_run :: "string \<Rightarrow> pyerror + int" where
  "int_of_run num =
     (if list_all is_digit num \<and> length num \<le> int_max_str_digits
      then Inr (int (digits_val num)) else Inl ValueError)"

definition convert_str :: "string \<Rightarrow> (string \<times> pynum) list \<Rightarrow> pyerror + pynum" where
  "convert_str s conversion_dict =
     (case findall s of
        [num, unit] \<Rightarrow>
          (case map_of conversion_dict (lower unit) of
             None \<Rightarrow> Inl (KeyError (lower unit))
           | Some mult_factor \<Rightarrow>
               err_bind (int_of_run num) (\<lambda>n. py_mul (PInt n) mult_factor))
      | _ \<Rightarrow> Inl ValueError)"

text \<open>\<^verbatim>\<open>re.findall\<close> raises \<^verbatim>\<open>TypeError\<close> on a value that is not a string.\<close>

fun convert_value :: "json \<Rightarrow> (string \<times> pynum) list \<Rightarrow> pyerror + pynum" where
  "convert_value (JStr s) conversion_dict = convert_str s conversion_dict"
| "convert_value v conversion_dict = Inl TypeError"

subsection \<open>\<^verbatim>\<open>FioMetrics._extract_metrics\<close>\<close>

text \<open>One entry of the returned list; \<open>m_lat_min\<close>, \<open>m_lat_max\<close>, \<open>m_lat_mean\<close> are the inner dict
  under \<^verbatim>\<open>lat_ns\<close>. The metrics are copied from the report as they are.\<close>

record metric =
  m_jobname :: json
  m_filesize :: pynum
  m_num_threads :: int
  m_start_time :: pynum
  m_end_time :: int
  m_iops :: json
  m_bw :: json
  m_lat_min :: json
  m_lat_max :: json
  m_lat_mean :: json

text \<open>Lines 147-154: the global file size and ramp time, \<^verbatim>\<open>''\<close> and \<^verbatim>\<open>0\<close> when absent.\<close>

definition global_options :: "json \<Rightarrow> pyerror + (json \<times> pynum)" where
  "global_options fio_out =
     err_bind (py_in GLOBAL_OPTS fio_out) (\<lambda>has_global.
       if has_global then
         err_bind (py_getitem fio_out GLOBAL_OPTS) (\<lambda>opts.
         err_bind (py_in FILESIZE opts) (\<lambda>has_filesize.
         err_bind (if has_filesize then py_getitem opts FILESIZE else Inr (JStr [])) (\<lambda>global_filesize.
         err_bind (py_in RAMPTIME opts) (\<lambda>has_ramptime.
         err_bind (if has_ramptime
                   then err_bind (py_getitem opts RAMPTIME) (\<lambda>v. convert_value v RAMPTIME_CONVERSION)
                   else Inr (PInt 0)) (\<lambda>global_ramptime_ms.
         Inr (global_filesize, global_ramptime_ms))))))
       else Inr (JStr [], PInt 0))"

text \<open>Lines 161-168: the job's name, its \<^verbatim>\<open>read\<close> section and the five metrics.\<close>

definition read_metrics :: "json \<Rightarrow> pyerror + (json \<times> json \<times> json \<times> json \<times> json \<times> json \<times> json)" where
  "read_metrics job =
     err_bind (py_getitem job JOBNAME) (\<lambda>jobname.
     err_bind (py_getitem job READ) (\<lambda>job_read.
     err_bind (py_getitem job_read IOPS) (\<lambda>iops.
     err_bind (py_getitem job_read BW) (\<lambda>bw_kibps.
     err_bind (err_bind (py_getitem job_read LAT) (\<lambda>lat. py_getitem lat MIN_key)) (\<lambda>min_lat_ns.
     err_bind (err_bind (py_getitem job_read LAT) (\<lambda>lat. py_getitem lat MAX_key)) (\<lambda>max_lat_ns.
     err_bind (err_bind (py_getitem job_read LAT) (\<lambda>lat. py_getitem lat MEAN)) (\<lambda>mean_lat_ns.
     Inr (jobname, job_read, iops, bw_kibps, min_lat_ns, max_lat_ns, mean_lat_ns))))))))"

text \<open>
  Lines 160 and 170-188: \<^verbatim>\<open>numjobs\<close>, \<^verbatim>\<open>filesize\<close> and \<^verbatim>\<open>ramptime_ms\<close> of a job. \<^verbatim>\<open>filesize\<close>
  starts as the integer 0 and \<^verbatim>\<open>numjobs\<close> as \<^verbatim>\<open>'1'\<close>; a falsy \<^verbatim>\<open>filesize\<close> is replaced by
  the global one, a \<^verbatim>\<open>ramptime_ms\<close> equal to 0 by the global one.
\<close>

definition job_options :: "json \<Rightarrow> pynum \<Rightarrow> json \<Rightarrow> pyerror + (json \<times> json \<times> pynum)" where
  "job_options global_filesize global_ramptime_ms job =
     err_bind (py_in JOB_OPTS job) (\<lambda>has_opts.
     err_bind
       (if has_opts then
          err_bind (py_getitem job JOB_OPTS) (\<lambda>opts.
          err_bind (py_in NUMJOBS opts) (\<lambda>has_numjobs.
          err_bind (if has_numjobs then py_getitem opts NUMJOBS else Inr (JStr ''1'')) (\<lambda>numjobs.
          err_bind (py_in FILESIZE opts) (\<lambda>has_filesize.
          err_bind (if has_filesize then py_getitem opts FILESIZE else Inr (JInt 0)) (\<lambda>filesize.
          err_bind (py_in RAMPTIME opts) (\<lambda>has_ramptime.
          err_bind (if has_ramptime
                    then err_bind (py_getitem opts RAMPTIME) (\<lambda>v. convert_value v RAMPTIME_CONVERSION)
                    else Inr (PInt 0)) (\<lambda>ramptime_ms.
          Inr (numjobs, filesize, ramptime_ms))))))))
        else Inr (JStr ''1'', JInt 0, PInt 0))
       (\<lambda>(numjobs, filesize, ramptime_ms).
          Inr (numjobs,
               if \<not> truthy filesize then global_filesize else filesize,
               if num_eq_int ramptime_ms 0 then global_ramptime_ms else ramptime_ms)))"

text \<open>
  Lines 191-198: the job starts where the previous one ended, or at the report's timestamp
  when \<^verbatim>\<open>prev_endtime_s\<close> is not positive; the result is \<^verbatim>\<open>(start_time_s, end_time_s)\<close>.
  The sum, the division \<^verbatim>\<open>end_time_ms / 1000\<close> and \<^verbatim>\<open>round\<close> can each raise.
\<close>

definition time_window :: "json \<Rightarrow> int \<Rightarrow> json \<Rightarrow> pynum \<Rightarrow> pyerror + (pynum \<times> int)" where
  "time_window fio_out prev_endtime_s job_read ramptime_ms =
     err_bind (if prev_endtime_s > 0 then Inr (JInt (prev_endtime_s * 1000))
               else py_getitem fio_out TIMESTAMP_MS) (\<lambda>start_time_v.
     err_bind (py_getitem job_read RUNTIME) (\<lambda>runtime_v.
     err_bind (as_num runtime_v) (\<lambda>runtime.
     err_bind (as_num start_time_v) (\<lambda>start_time_ms.
     err_bind (err_bind (py_add start_time_ms runtime) (\<lambda>t. py_add t ramptime_ms)) (\<lambda>end_time_ms.
       let start_time_s = py_floordiv_1000 start_time_ms
       in err_bind (round_div_1000 end_time_ms) (\<lambda>end_time_s.
            Inr (start_time_s, end_time_s)))))))"

text \<open>Lines 203-205: the condition under which a job is skipped.\<close>

definition skip_job ::
  "json \<Rightarrow> json \<Rightarrow> pynum \<Rightarrow> int \<Rightarrow> json \<Rightarrow> json \<Rightarrow> json \<Rightarrow> json \<Rightarrow> json \<Rightarrow> bool" where
  "skip_job jobname filesize start_time_s end_time_s iops bw_kibps min_lat_ns max_lat_ns mean_lat_ns =
     ((\<not> truthy jobname \<and> \<not> truthy filesize) \<or> num_eq_int start_time_s end_time_s \<or>
      (\<not> truthy iops \<and> \<not> truthy bw_kibps \<and> \<not> truthy min_lat_ns \<and> \<not> truthy max_lat_ns \<and>
       \<not> truthy mean_lat_ns))"

text \<open>
  The body of the loop over the jobs (lines 159-224): the new \<^verbatim>\<open>prev_endtime_s\<close> and the
  record appended to \<^verbatim>\<open>all_jobs\<close>, \<open>None\<close> for a skipped job. (The notice printed for a
  skipped job is not modelled.)
\<close>

definition job_step :: "json \<Rightarrow> json \<Rightarrow> pynum \<Rightarrow> int \<Rightarrow> json \<Rightarrow> pyerror + (int \<times> metric option)" where
  "job_step fio_out global_filesize global_ramptime_ms prev_endtime_s job =
     err_bind (read_metrics job)
       (\<lambda>(jobname, job_read, iops, bw_kibps, min_lat_ns, max_lat_ns, mean_lat_ns).
     err_bind (job_options global_filesize global_ramptime_ms job) (\<lambda>(numjobs, filesize, ramptime_ms).
     err_bind (time_window fio_out prev_endtime_s job_read ramptime_ms) (\<lambda>(start_time_s, end_time_s).
       if skip_job jobname filesize start_time_s end_time_s iops bw_kibps
            min_lat_ns max_lat_ns mean_lat_ns
       then Inr (0, None)
       else
         err_bind (convert_value filesize FILESIZE_CONVERSION) (\<lambda>filesize_kb.
         err_bind (py_int numjobs) (\<lambda>numjobs_int.
         Inr (end_time_s,
              Some \<lparr>m_jobname = jobname, m_filesize = filesize_kb, m_num_threads = numjobs_int,
                    m_start_time = start_time_s, m_end_time = end_time_s, m_iops = iops,
                    m_bw = bw_kibps, m_lat_min = min_lat_ns, m_lat_max = max_lat_ns,
                    m_lat_mean = mean_lat_ns\<rparr>))))))"

text \<open>The loop of line 158, with \<^verbatim>\<open>prev_endtime_s\<close> and \<^verbatim>\<open>all_jobs\<close> as accumulators.\<close>

fun jobs_loop :: "json \<Rightarrow> json \<Rightarrow> pynum \<Rightarrow> int \<Rightarrow> metric list \<Rightarrow> json list \<Rightarrow> pyerror + metric list" where
  "jobs_loop fio_out global_filesize global_ramptime_ms prev_endtime_s all_jobs [] = Inr all_jobs"
| "jobs_loop fio_out global_filesize global_ramptime_ms prev_endtime_s all_jobs (job # jobs) =
     err_bind (job_step fio_out global_filesize global_ramptime_ms prev_endtime_s job) (\<lambda>(prev', out).
       jobs_loop fio_out global_filesize global_ramptime_ms prev'
         (case out of None \<Rightarrow> all_jobs | Some m \<Rightarrow> all_jobs @ [m]) jobs)"

definition extract_metrics :: "json \<Rightarrow> pyerror + metric list" where
  "extract_metrics fio_out =
     (if \<not> truthy fio_out then Inl (NoValuesError ''No data in json object'')
      else
        err_bind (global_options fio_out) (\<lambda>(global_filesize, global_ramptime_ms).
        err_bind (py_getitem fio_out JOBS) (\<lambda>jobs_v.
        err_bind (py_iter jobs_v) (\<lambda>jobs.
        err_bind (jobs_loop fio_out global_filesize global_ramptime_ms 0 [] jobs) (\<lambda>all_jobs.
          if all_jobs = [] then Inl (NoValuesError ''No data could be extracted from file'')
          else Inr all_jobs)))))"

section \<open>Wording of the specification\<close>

text \<open>
  The specification describes the argument of the unit conversion as ``a leading integer
  run and a trailing alphabetic unit run (exactly one of each, no other characters)''.
  This predicate follows those words, not the code; it is compared with the code below.
\<close>

definition leading_digits_trailing_letters :: "string \<Rightarrow> bool" where
  "leading_digits_trailing_letters s =
     (let num = takeWhile is_digit s; unit = dropWhile is_digit s
      in num \<noteq> [] \<and> unit \<noteq> [] \<and> list_all is_alpha unit)"

text \<open>
  The claims compare numbers. \<^verbatim>\<open>x <= y\<close> for two floats, and for two numbers: an \<^verbatim>\<open>int\<close> and
  a float are compared by their exact values, and every comparison with NaN is false.
\<close>

fun float_le :: "pyfloat \<Rightarrow> pyfloat \<Rightarrow> bool" where
  "float_le (Fin a) (Fin b) = (a \<le> b)"
| "float_le NaN y = False"
| "float_le x NaN = False"
| "float_le NegInf y = True"
| "float_le x PosInf = True"
| "float_le x y = False"

fun num_le :: "pynum \<Rightarrow> pynum \<Rightarrow> bool" where
  "num_le (PInt a) (PInt b) = (a \<le> b)"
| "num_le (PInt a) (PFloat y) = float_le (Fin (of_int a)) y"
| "num_le (PFloat x) (PInt b) = float_le x (Fin (of_int b))"
| "num_le (PFloat x) (PFloat y) = float_le x y"


section \<open>Auxiliary facts\<close>

lemmas key_defs =
  JOBNAME_def GLOBAL_OPTS_def JOBS_def JOB_OPTS_def FILESIZE_def NUMJOBS_def TIMESTAMP_MS_def
  RUNTIME_def RAMPTIME_def READ_def IOPS_def BW_def LAT_def MIN_key_def MAX_key_def MEAN_def

lemma err_bind_Inl: "err_bind (Inl e) f = Inl e"
  by (simp add: err_bind_def)

lemma err_bind_Inr: "err_bind (Inr x) f = f x"
  by (simp add: err_bind_def)

lemma err_bind_eq_Inr: "err_bind m f = Inr y \<longleftrightarrow> (\<exists>x. m = Inr x \<and> f x = Inr y)"
  by (cases m) (simp_all add: err_bind_def)

subsection \<open>Rounding to doubles\<close>

lemma rhe_floor_le: "\<lfloor>q\<rfloor> \<le> round_half_even q"
  by (simp add: round_half_even_def Let_def)

lemma rhe_le_ceiling: "round_half_even q \<le> \<lceil>q\<rceil>"
  unfolding round_half_even_def Let_def
  by (auto simp: ceiling_altdef)

lemma rhe_of_int [simp]: "round_half_even (of_int n) = n"
  by (simp add: round_half_even_def)

lemma rhe_numeral [simp]: "round_half_even (numeral n) = numeral n"
  using rhe_of_int [of "numeral n"] by simp

lemma rhe_mono: "x \<le> y \<Longrightarrow> round_half_even x \<le> round_half_even y"
proof -
  assume xy: "x \<le> y"
  have fl: "\<lfloor>x\<rfloor> \<le> \<lfloor>y\<rfloor>" using xy by (rule floor_mono)
  show ?thesis
  proof (cases "\<lfloor>x\<rfloor> = \<lfloor>y\<rfloor>")
    case True
    then have "x - of_int \<lfloor>x\<rfloor> \<le> y - of_int \<lfloor>y\<rfloor>" using xy by simp
    then show ?thesis
      unfolding round_half_even_def Let_def True by auto
  next
    case False
    then have "\<lfloor>x\<rfloor> + 1 \<le> \<lfloor>y\<rfloor>" using fl by simp
    moreover have "round_half_even x \<le> \<lfloor>x\<rfloor> + 1"
      by (simp add: round_half_even_def Let_def)
    ultimately show ?thesis using rhe_floor_le [of y] by linarith
  qed
qed

lemma powi2_pos [simp]: "0 < (2::rat) powi n"
  by simp

lemma powi2_less_D: "(2::rat) powi a < 2 powi b \<Longrightarrow> a < b"
proof (rule ccontr)
  assume "2 powi a < (2::rat) powi b" "\<not> a < b"
  then have "b \<le> a" by simp
  then have "(2::rat) powi b \<le> 2 powi a"
    by (intro power_int_increasing) simp_all
  with \<open>2 powi a < (2::rat) powi b\<close> show False by simp
qed

lemma powi2_mono: "a \<le> b \<Longrightarrow> (2::rat) powi a \<le> 2 powi b"
  by (intro power_int_increasing) simp_all

lemma float_exp_bounds:
  assumes "x \<noteq> 0"
  shows "2 powi float_exp x \<le> \<bar>x\<bar>" and "\<bar>x\<bar> < 2 powi (float_exp x + 1)"
proof -
  define a where "a = \<bar>x\<bar>"
  have a: "0 < a" using assms by (simp add: a_def)
  have "2 powi float_exp x \<le> a \<and> a < 2 powi (float_exp x + 1)"
  proof (cases "1 \<le> a")
    case True
    define n where "n = \<lfloor>a\<rfloor>"
    have n: "0 < n" "of_int n \<le> a" "a < of_int n + 1"
      using True by (simp_all add: n_def) linarith
    have e: "float_exp x = bitlen n - 1"
      using True by (simp add: float_exp_def a_def n_def Let_def)
    have b1: "1 \<le> bitlen n" using n(1) by (simp add: bitlen_alt_def)
    from bitlen_bounds [OF n(1)] have lo: "2 ^ nat (bitlen n - 1) \<le> n" and hi: "n < 2 ^ nat (bitlen n)"
      by auto
    have "(2::rat) powi (bitlen n - 1) = of_int (2 ^ nat (bitlen n - 1))"
      using b1 by (simp add: power_int_def)
    also have "\<dots> \<le> of_int n" using lo by (simp only: of_int_le_iff)
    finally have 1: "2 powi (bitlen n - 1) \<le> a" using n(2) by simp
    have "n + 1 \<le> 2 ^ nat (bitlen n)" using hi by simp
    then have "(of_int (n + 1) :: rat) \<le> of_int (2 ^ nat (bitlen n))"
      by (simp only: of_int_le_iff)
    also have "\<dots> = 2 powi (bitlen n)" using b1 by (simp add: power_int_def)
    finally have 2: "a < 2 powi (bitlen n - 1 + 1)" using n(3) by simp
    from 1 2 show ?thesis unfolding e by simp
  next
    case False
    define y where "y = 1 / a"
    define n where "n = \<lceil>y\<rceil> - 1"
    have y: "1 < y" using False a by (simp add: y_def)
    have n: "0 < n" "of_int n < y" "y \<le> of_int n + 1"
      using y by (simp_all add: n_def less_ceiling_iff) linarith+
    have e: "float_exp x = - bitlen n"
      using False by (simp add: float_exp_def a_def n_def y_def Let_def)
    have b1: "1 \<le> bitlen n" using n(1) by (simp add: bitlen_alt_def)
    from bitlen_bounds [OF n(1)] have lo: "2 ^ nat (bitlen n - 1) \<le> n" and hi: "n < 2 ^ nat (bitlen n)"
      by auto
    have "n + 1 \<le> 2 ^ nat (bitlen n)" using hi by simp
    then have "(of_int (n + 1) :: rat) \<le> of_int (2 ^ nat (bitlen n))"
      by (simp only: of_int_le_iff)
    also have "\<dots> = 2 powi (bitlen n)" using b1 by (simp add: power_int_def)
    finally have "y \<le> 2 powi (bitlen n)" using n(3) by simp
    then have "1 / 2 powi (bitlen n) \<le> 1 / y"
      using y by (intro divide_left_mono) (auto intro: mult_pos_pos)
    moreover have "1 / y = a"
      using a by (simp add: y_def)
    moreover have "1 / (2::rat) powi (bitlen n) = 2 powi (- bitlen n)"
      using power_int_minus [of "2::rat" "bitlen n"] by (simp add: inverse_eq_divide)
    ultimately have 1: "2 powi (- bitlen n) \<le> a"
      by simp
    have "(2::rat) powi (bitlen n - 1) = of_int (2 ^ nat (bitlen n - 1))"
      using b1 by (simp add: power_int_def)
    also have "\<dots> \<le> of_int n" using lo by (simp only: of_int_le_iff)
    also have "\<dots> < y" using n(2) .
    finally have "1 / y < 1 / 2 powi (bitlen n - 1)"
      using y by (intro divide_strict_left_mono) (auto intro: mult_pos_pos)
    moreover have "1 / y = a"
      using a by (simp add: y_def)
    moreover have "1 / (2::rat) powi (bitlen n - 1) = 2 powi (- bitlen n + 1)"
      using power_int_minus [of "2::rat" "bitlen n - 1"] by (simp add: inverse_eq_divide)
    ultimately have 2: "a < 2 powi (- bitlen n + 1)"
      by simp
    from 1 2 show ?thesis unfolding e by simp
  qed
  then show "2 powi float_exp x \<le> \<bar>x\<bar>" and "\<bar>x\<bar> < 2 powi (float_exp x + 1)"
    by (simp_all add: a_def)
qed


lemma float_exp_unique:
  assumes "2 powi e \<le> \<bar>x\<bar>" "\<bar>x\<bar> < 2 powi (e + 1)"
  shows "float_exp x = e"
proof -
  have x: "x \<noteq> 0"
  proof
    assume "x = 0"
    with assms(1) have "(2::rat) powi e \<le> 0" by simp
    moreover have "0 < (2::rat) powi e" by simp
    ultimately show False by linarith
  qed
  note b = float_exp_bounds [OF x]
  have "(2::rat) powi e < 2 powi (float_exp x + 1)"
    using assms(1) b(2) by simp
  then have 1: "e < float_exp x + 1"
    by (rule powi2_less_D)
  have "(2::rat) powi float_exp x < 2 powi (e + 1)"
    using assms(2) b(1) by simp
  then have 2: "float_exp x < e + 1"
    by (rule powi2_less_D)
  from 1 2 show ?thesis by simp
qed


lemma round_double_eq:
  assumes "2 powi e \<le> \<bar>x\<bar>" "\<bar>x\<bar> < 2 powi (e + 1)"
  shows "round_double x =
           of_int (round_half_even (x / 2 powi (max e (- 1022) - 52))) * 2 powi (max e (- 1022) - 52)"
proof -
  have "x \<noteq> 0"
  proof
    assume "x = 0"
    with assms(1) have "(2::rat) powi e \<le> 0" by simp
    moreover have "0 < (2::rat) powi e" by simp
    ultimately show False by linarith
  qed
  then show ?thesis
    by (simp add: round_double_def float_exp_unique [OF assms] Let_def)
qed

lemma rhe_nonneg: "0 \<le> q \<Longrightarrow> 0 \<le> round_half_even q"
  using rhe_mono [of 0 q] rhe_of_int [of 0] by simp

lemma float_exp_mono:
  assumes "0 < x" "x \<le> y"
  shows "float_exp x \<le> float_exp y"
proof -
  have "(2::rat) powi float_exp x \<le> \<bar>x\<bar>"
    using assms(1) by (intro float_exp_bounds) simp
  also have "\<bar>x\<bar> \<le> \<bar>y\<bar>" using assms by simp
  also have "\<bar>y\<bar> < 2 powi (float_exp y + 1)"
    using assms by (intro float_exp_bounds) simp
  finally have "float_exp x < float_exp y + 1"
    by (rule powi2_less_D)
  then show ?thesis by simp
qed

lemma powi2_diff: "(2::rat) powi a / 2 powi b = 2 powi (a - b)"
  by (simp add: power_int_diff)

lemma powi2_53: "(9007199254740992::rat) * 2 powi (e - 52) = 2 powi (e + 1)"
proof -
  have "(2::rat) powi (e + 1) = 2 powi 53 * 2 powi (e - 52)"
    using power_int_add [of "2::rat" 53 "e - 52"] by (simp add: add.commute)
  then show ?thesis by simp
qed

lemma powi2_53': "(9007199254740992::rat) * 2 powi j = 2 powi (j + 53)"
proof -
  have "(2::rat) powi (j + 53) = 2 powi 53 * 2 powi j"
    using power_int_add [of "2::rat" 53 j] by (simp add: add.commute)
  then show ?thesis by simp
qed

lemma powi2_52: "(4503599627370496::rat) * 2 powi (e - 52) = 2 powi e"
proof -
  have "(2::rat) powi e = 2 powi 52 * 2 powi (e - 52)"
    using power_int_add [of "2::rat" 52 "e - 52"] by simp
  then show ?thesis by simp
qed

lemma round_double_mono:
  assumes "0 \<le> x" "x \<le> y"
  shows "round_double x \<le> round_double y"
proof (cases "x = 0")
  case True
  have "0 \<le> round_double y"
    using assms by (auto simp: round_double_def Let_def intro!: mult_nonneg_nonneg rhe_nonneg)
  then show ?thesis using True by (simp add: round_double_def)
next
  case False
  then have x: "0 < x" and y: "0 < y" using assms by simp_all
  define ex where "ex = max (float_exp x) (- 1022)"
  define ey where "ey = max (float_exp y) (- 1022)"
  define ux :: rat where "ux = 2 powi (ex - 52)"
  define uy :: rat where "uy = 2 powi (ey - 52)"
  have rx: "round_double x = of_int (round_half_even (x / ux)) * ux"
    using x by (simp add: round_double_def Let_def ex_def ux_def)
  have ry: "round_double y = of_int (round_half_even (y / uy)) * uy"
    using y by (simp add: round_double_def Let_def ey_def uy_def)
  have ux: "0 < ux" and uy: "0 < uy" by (simp_all add: ux_def uy_def)
  have exy: "ex \<le> ey"
    using float_exp_mono [OF x assms(2)] by (simp add: ex_def ey_def)
  show ?thesis
  proof (cases "ex = ey")
    case True
    then have "ux = uy" by (simp add: ux_def uy_def)
    moreover have "x / uy \<le> y / uy"
      using assms(2) uy by (simp add: divide_right_mono)
    ultimately show ?thesis
      unfolding rx ry using uy rhe_mono [of "x / uy" "y / uy"]
      by (simp add: mult_right_mono)
  next
    case False
    then have lt: "ex < ey" using exy by simp
    then have eyf: "ey = float_exp y" by (auto simp: ey_def ex_def)
    have "\<bar>x\<bar> < 2 powi (float_exp x + 1)"
      using x by (intro float_exp_bounds) simp
    also have "\<dots> \<le> 2 powi (ex + 1)"
      by (intro powi2_mono) (simp add: ex_def)
    finally have "x / ux < 2 powi (ex + 1) / ux"
      using x ux by (simp add: divide_strict_right_mono)
    also have "\<dots> = 2 powi 53"
      by (simp add: ux_def powi2_diff)
    finally have "x / ux \<le> of_int (2 ^ 53)" by simp
    from rhe_mono [OF this] have "round_half_even (x / ux) \<le> 2 ^ 53" by simp
    then have "(of_int (round_half_even (x / ux)) :: rat) \<le> of_int (2 ^ 53)"
      by (simp only: of_int_le_iff)
    then have "round_double x \<le> of_int (2 ^ 53) * ux"
      unfolding rx using ux by (intro mult_right_mono) simp_all
    also have "\<dots> = 2 powi (ex + 1)"
      by (simp add: ux_def powi2_53)
    also have "\<dots> \<le> 2 powi ey" using lt by (intro powi2_mono) simp
    finally have 1: "round_double x \<le> 2 powi ey" .
    have "(2::rat) powi ey \<le> \<bar>y\<bar>"
      unfolding eyf using y by (intro float_exp_bounds) simp
    then have "2 powi ey / uy \<le> y / uy"
      using y uy by (simp add: divide_right_mono)
    moreover have "2 powi ey / uy = of_int (2 ^ 52)"
      by (simp add: uy_def powi2_diff)
    ultimately have "of_int (2 ^ 52) \<le> y / uy" by simp
    from rhe_mono [OF this] have "2 ^ 52 \<le> round_half_even (y / uy)" by simp
    then have "(of_int (2 ^ 52) :: rat) \<le> of_int (round_half_even (y / uy))"
      by (simp only: of_int_le_iff)
    then have "of_int (2 ^ 52) * uy \<le> round_double y"
      unfolding ry using uy by (intro mult_right_mono) simp_all
    moreover have "of_int (2 ^ 52) * uy = 2 powi ey"
      by (simp add: uy_def powi2_52)
    ultimately have 2: "2 powi ey \<le> round_double y" by simp
    from 1 2 show ?thesis by simp
  qed
qed


lemma powi2_nonneg_int: "0 \<le> k \<Longrightarrow> (2::rat) powi k = of_int (2 ^ nat k)"
  by (simp add: power_int_def)

lemma round_double_representable:
  assumes "x = of_int m * 2 powi j" "\<bar>m\<bar> \<le> 2 ^ 53" "- 1074 \<le> j"
  shows "round_double x = x"
proof (cases "x = 0")
  case True
  then show ?thesis by (simp add: round_double_def)
next
  case False
  define e where "e = max (float_exp x) (- 1022)"
  define u :: rat where "u = 2 powi (e - 52)"
  have u: "0 < u" by (simp add: u_def)
  have rd: "round_double x = of_int (round_half_even (x / u)) * u"
    using False by (simp add: round_double_def Let_def e_def u_def)
  have q: "x / u = of_int m * 2 powi (j - (e - 52))"
    by (simp add: assms(1) u_def power_int_diff)
  have "\<exists>k. x / u = of_int k"
  proof (cases "0 \<le> j - (e - 52)")
    case True
    then have "x / u = of_int (m * 2 ^ nat (j - (e - 52)))"
      by (simp add: q powi2_nonneg_int)
    then show ?thesis by blast
  next
    case neg: False
    then have "- 1022 < e" using assms(3) by simp
    then have ef: "e = float_exp x" by (auto simp: e_def)
    have "(2::rat) powi e \<le> \<bar>x\<bar>"
      unfolding ef using False by (intro float_exp_bounds)
    also have "\<bar>x\<bar> = of_int \<bar>m\<bar> * 2 powi j"
      by (simp add: assms(1) abs_mult)
    also have "\<dots> \<le> of_int (2 ^ 53) * 2 powi j"
      using assms(2) by (intro mult_right_mono) (simp_all only: of_int_le_iff powi2_pos less_imp_le)
    finally have le: "(2::rat) powi e \<le> of_int (2 ^ 53) * 2 powi j" .
    have sh: "of_int (2 ^ 53) * (2::rat) powi j = 2 powi (j + 53)"
      using powi2_53' [of j] by simp
    have "e \<le> j + 53"
    proof (rule ccontr)
      assume "\<not> e \<le> j + 53"
      then have "j + 53 < e" by simp
      then have "(2::rat) powi (j + 53) < 2 powi e"
        by (intro power_int_strict_increasing) simp_all
      with le sh show False by simp
    qed
    with neg have ej: "e = j + 53" by simp
    have "of_int (2 ^ 53) * (2::rat) powi j \<le> of_int \<bar>m\<bar> * 2 powi j"
      using \<open>(2::rat) powi e \<le> \<bar>x\<bar>\<close> \<open>\<bar>x\<bar> = of_int \<bar>m\<bar> * 2 powi j\<close> sh
      unfolding ej by simp
    then have "(of_int (2 ^ 53) :: rat) \<le> of_int \<bar>m\<bar>"
      by (simp only: mult_le_cancel_right_pos powi2_pos)
    then have "2 ^ 53 \<le> \<bar>m\<bar>" by (simp only: of_int_le_iff)
    with assms(2) have m: "\<bar>m\<bar> = 2 ^ 53" by simp
    have "x / u = of_int m * 2 powi (- 1)"
      by (simp add: q ej)
    also have "\<dots> = of_int m / 2" by (simp add: power_int_minus)
    also have "\<dots> = of_int (m div 2)"
    proof -
      have "m = 2 ^ 53 \<or> m = - (2 ^ 53)" using m by auto
      then show ?thesis by auto
    qed
    finally show ?thesis by blast
  qed
  then obtain k where k: "x / u = of_int k" by blast
  then have "round_double x = x / u * u"
    unfolding rd by simp
  then show ?thesis using u by simp
qed

lemma round_double_of_int:
  "\<bar>k\<bar> \<le> 2 ^ 53 \<Longrightarrow> round_double (of_int k) = of_int k"
  using round_double_representable [of "of_int k" k 0] by simp


lemma rhe_eqI:
  assumes "of_int n - 1 / 2 < q" "q < of_int n + 1 / 2"
  shows "round_half_even q = n"
proof (cases "of_int n \<le> q")
  case True
  then have "\<lfloor>q\<rfloor> = n" using assms(2) by (intro floor_unique) simp_all
  then show ?thesis using assms(2) by (simp add: round_half_even_def Let_def)
next
  case False
  then have "\<lfloor>q\<rfloor> = n - 1" using assms(1) by (intro floor_unique) simp_all
  then show ?thesis using assms(1) by (simp add: round_half_even_def Let_def)
qed

lemma round_double_eqI:
  assumes "2 powi e \<le> \<bar>x\<bar>" "\<bar>x\<bar> < 2 powi (e + 1)" "- 1022 \<le> e"
    and "of_int n - 1 / 2 < x / 2 powi (e - 52)" "x / 2 powi (e - 52) < of_int n + 1 / 2"
  shows "round_double x = of_int n * 2 powi (e - 52)"
  using round_double_eq [OF assms(1,2)] rhe_eqI [OF assms(4,5)] assms(3) by (simp add: max_def)

lemma round_double_nonneg: "0 \<le> x \<Longrightarrow> 0 \<le> round_double x"
  using round_double_mono [of 0 x] by (simp add: round_double_def)

lemma fl_eq_Fin: "fl x = Fin r \<longleftrightarrow> r = round_double x \<and> \<bar>round_double x\<bar> < 2 ^ 1024"
  by (auto simp: fl_def Let_def)

lemma fl_Fin_I: "\<bar>round_double x\<bar> < 2 ^ 1024 \<Longrightarrow> fl x = Fin (round_double x)"
  by (simp add: fl_eq_Fin)

lemma fl_of_int: "\<bar>k\<bar> \<le> 2 ^ 53 \<Longrightarrow> fl (of_int k) = Fin (of_int k)"
proof -
  assume k: "\<bar>k\<bar> \<le> 2 ^ 53"
  then have "(of_int \<bar>k\<bar> :: rat) \<le> of_int (2 ^ 53)" by (simp only: of_int_le_iff)
  then have "\<bar>of_int k :: rat\<bar> < 2 ^ 1024" by simp
  then show ?thesis
    using round_double_of_int [OF k] by (simp add: fl_eq_Fin)
qed

lemma fl_numeral: "\<bar>numeral k :: int\<bar> \<le> 2 ^ 53 \<Longrightarrow> fl (numeral k) = Fin (numeral k)"
  using fl_of_int [of "numeral k"] by simp

lemma fl_zero [simp]: "fl 0 = Fin 0"
  by (simp add: fl_def round_double_def)

lemma fl_milli: "fl (1 / 1000) = Fin (1152921504606847 / 1152921504606846976)"
proof -
  have "round_double (1 / 1000) = of_int 4611686018427388 * 2 powi (- 10 - 52)"
    by (rule round_double_eqI) simp_all
  then have "round_double (1 / 1000) = 1152921504606847 / 1152921504606846976"
    by simp
  then show ?thesis by (simp add: fl_eq_Fin)
qed

text \<open>
  Dividing an integer below \<open>2 ^ 52\<close> by 1000 and rounding the double gives the rounded exact
  quotient.
\<close>

lemma rhe_of_int_div:
  "round_half_even (of_int a / 1000) =
     (if a mod 1000 < 500 then a div 1000
      else if 500 < a mod 1000 then a div 1000 + 1
      else if even (a div 1000) then a div 1000 else a div 1000 + 1)"
proof -
  have fl: "\<lfloor>(of_int a :: rat) / 1000\<rfloor> = a div 1000"
    using floor_divide_of_int_eq [of a 1000, where ?'a = rat] by simp
  have "(of_int a :: rat) = of_int (a div 1000 * 1000 + a mod 1000)"
    by simp
  then have d: "(of_int a :: rat) / 1000 - of_int (a div 1000) = of_int (a mod 1000) / 1000"
    by (simp only: of_int_add of_int_mult) (simp add: field_simps)
  have lt: "(of_int (a mod 1000) / 1000 < (1 / 2 :: rat)) = (a mod 1000 < 500)"
    by (simp add: field_simps)
  have gt: "((1 / 2 :: rat) < of_int (a mod 1000) / 1000) = (500 < a mod 1000)"
    by (simp add: field_simps)
  show ?thesis
    unfolding round_half_even_def Let_def fl d lt gt by simp
qed

lemma rhe_between:
  assumes "of_int n / 2 < x" "x < of_int (n + 1) / 2"
  shows "round_half_even x = (n + 1) div 2"
proof (cases "even n")
  case True
  then obtain k where n: "n = 2 * k" by (auto elim: evenE)
  have "of_int k - 1 / 2 < x" "x < of_int k + 1 / 2"
    using assms by (simp_all add: n field_simps)
  then have "round_half_even x = k" by (rule rhe_eqI)
  then show ?thesis by (simp add: n)
next
  case False
  then obtain k where n: "n = 2 * k + 1" by (auto elim: oddE)
  have "of_int (k + 1) - 1 / 2 < x" "x < of_int (k + 1) + 1 / 2"
    using assms by (simp_all add: n field_simps)
  then have "round_half_even x = k + 1" by (rule rhe_eqI)
  then show ?thesis by (simp add: n)
qed

lemma rd_div_1000:
  assumes "0 \<le> a" "a < 2 ^ 52"
  shows "round_half_even (round_double (of_int a / 1000)) = round_half_even (of_int a / 1000)"
    and "\<bar>round_double (of_int a / 1000)\<bar> < 2 ^ 1024"
proof -
  define q :: rat where "q = of_int a / 1000"
  define n where "n = a div 500"
  define r where "r = a mod 500"
  have a: "a = 500 * n + r" and r: "0 \<le> r" "r < 500"
    by (simp_all add: n_def r_def)
  have n0: "0 \<le> n"
    using assms by (simp add: n_def pos_imp_zdiv_nonneg_iff)
  have "500 * n \<le> a" using a r by simp
  then have n1: "n < 2 ^ 44" using assms(2) by simp
  note n = n0 n1
  have qa: "q = (500 * of_int n + of_int r) / 1000"
    by (simp add: q_def a)
  have "round_half_even (round_double q) = round_half_even q \<and> \<bar>round_double q\<bar> < 2 ^ 1024"
  proof (cases "r = 0")
    case True
    then have "q = of_int n * 2 powi (- 1)"
      by (simp add: qa power_int_minus)
    then have "round_double q = q"
      using n by (intro round_double_representable [where m = n and j = "- 1"]) simp_all
    moreover have "\<bar>q\<bar> < 2 ^ 1024"
    proof -
      have "(of_int n :: rat) < of_int (2 ^ 44)" using n(2) by (simp only: of_int_less_iff)
      then show ?thesis using n(1) True by (simp add: qa)
    qed
    ultimately show ?thesis by simp
  next
    case False
    then have r1: "1 \<le> r" "r \<le> 499" using r by simp_all
    define g1 :: rat where "g1 = of_int (512 * n + 1) * 2 powi (- 10)"
    define g2 :: rat where "g2 = of_int (512 * n + 511) * 2 powi (- 10)"
    have rr: "(1::rat) \<le> of_int r" "(of_int r :: rat) \<le> 499"
      using r1 by (simp_all add: of_int_le_numeral_iff)
    have g1q: "g1 \<le> q" using rr(1) by (simp add: g1_def qa field_simps)
    have qg2: "q \<le> g2" using rr(2) by (simp add: g2_def qa field_simps)
    have g1pos: "0 \<le> g1" using n(1) by (simp add: g1_def)
    have rg1: "round_double g1 = g1"
      unfolding g1_def using n by (intro round_double_representable [OF refl]) simp_all
    have rg2: "round_double g2 = g2"
      unfolding g2_def using n by (intro round_double_representable [OF refl]) simp_all
    have lo: "g1 \<le> round_double q"
      using round_double_mono [OF g1pos g1q] rg1 by simp
    have hi: "round_double q \<le> g2"
      using round_double_mono [of q g2] g1pos g1q qg2 rg2 by simp
    have nn: "(0::rat) \<le> of_int n" using n(1) by simp
    have h1: "of_int n / 2 < g1" by (simp add: g1_def field_simps)
    have h2: "g2 < of_int (n + 1) / 2" by (simp add: g2_def field_simps)
    have e1: "round_half_even (round_double q) = (n + 1) div 2"
      using h1 lo hi h2 by (intro rhe_between) simp_all
    have e2: "round_half_even q = (n + 1) div 2"
      using h1 g1q qg2 h2 by (intro rhe_between) simp_all
    have "(of_int n :: rat) < of_int (2 ^ 44)" using n(2) by (simp only: of_int_less_iff)
    then have "g2 < 2 ^ 1024" using h2 by simp
    moreover have "0 \<le> round_double q" using lo g1pos by simp
    ultimately have "\<bar>round_double q\<bar> < 2 ^ 1024" using hi by simp
    with e1 e2 show ?thesis by simp
  qed
  then show "round_half_even (round_double (of_int a / 1000)) = round_half_even (of_int a / 1000)"
    and "\<bar>round_double (of_int a / 1000)\<bar> < 2 ^ 1024"
    by (simp_all add: q_def)
qed

lemma round_div_1000_int:
  assumes "0 \<le> a" "a < 2 ^ 52"
  shows "round_div_1000 (PInt a) =
     Inr (if a mod 1000 < 500 then a div 1000
          else if 500 < a mod 1000 then a div 1000 + 1
          else if even (a div 1000) then a div 1000 else a div 1000 + 1)"
  using rd_div_1000 [OF assms] fl_Fin_I [of "of_int a / 1000"]
  by (simp add: round_div_1000_def err_bind_Inr rhe_of_int_div)

lemma round_div_1000_numeral:
  "(numeral k :: int) < 2 ^ 52 \<Longrightarrow> round_div_1000 (PInt (numeral k)) =
     Inr (if (numeral k :: int) mod 1000 < 500 then numeral k div 1000
          else if 500 < (numeral k :: int) mod 1000 then numeral k div 1000 + 1
          else if even ((numeral k :: int) div 1000) then numeral k div 1000
          else numeral k div 1000 + 1)"
  using round_div_1000_int [of "numeral k"] by simp

subsection \<open>The program\<close>

text \<open>The equations that evaluate the program on a concrete report.\<close>

lemmas eval_defs = key_defs err_bind_def is_digit_def is_alpha_def lower_def lower_char_def
  digit_val_def digits_val_def int_of_run_def int_max_str_digits_def convert_str_def
  FILESIZE_CONVERSION_def RAMPTIME_CONVERSION_def global_options_def read_metrics_def
  job_options_def time_window_def skip_job_def job_step_def extract_metrics_def
  round_div_1000_numeral is_space_def strip_def int_of_body_def int_of_str_def Let_def

lemma fl_ge_one: "1 \<le> x \<Longrightarrow> fl x \<noteq> Fin 0"
proof
  assume x: "1 \<le> x" and "fl x = Fin 0"
  then have "round_double x = 0" by (simp add: fl_eq_Fin)
  moreover have "round_double 1 \<le> round_double x"
    using x by (intro round_double_mono) simp_all
  moreover have "round_double 1 = 1"
    using round_double_of_int [of 1] by simp
  ultimately show False by simp
qed

lemma fl_numeral_div_nonzero [simp]:
  "(1::rat) \<le> numeral a / numeral b \<Longrightarrow> (fl (numeral a / numeral b) = Fin 0) = False"
  using fl_ge_one [of "numeral a / numeral b"] by simp

lemma jobs_loop_all_skipped:
  "\<forall>job \<in> set jobs. job_step fio_out gfs gr 0 job = Inr (0, None) \<Longrightarrow>
   jobs_loop fio_out gfs gr 0 acc jobs = Inr acc"
  by (induction jobs) (simp_all add: err_bind_Inr)

text \<open>The runs found in a string made of digits followed by letters.\<close>

lemma alpha_not_digit: "is_alpha c \<Longrightarrow> \<not> is_digit c"
  by (auto simp: is_alpha_def is_digit_def)

lemma findall_alpha_run:
  assumes "u \<noteq> []" "list_all is_alpha u"
  shows "findall u = [u]"
proof -
  obtain a as where u: "u = a # as" using assms(1) by (cases u) auto
  have "is_alpha a" "\<forall>x \<in> set as. is_alpha x"
    using assms(2) by (auto simp: u list_all_iff)
  then have dw: "dropWhile is_alpha as = []" and tw: "takeWhile is_alpha as = as"
    by simp_all
  show ?thesis
    using \<open>is_alpha a\<close> by (simp add: u alpha_not_digit dw tw)
qed

lemma findall_digits_unit:
  assumes "d \<noteq> []" "list_all is_digit d" "u \<noteq> []" "list_all is_alpha u"
  shows "findall (d @ u) = [d, u]"
proof -
  obtain c cs where d: "d = c # cs" using assms(1) by (cases d) auto
  obtain a as where u: "u = a # as" using assms(3) by (cases u) auto
  have c: "is_digit c" "\<forall>x \<in> set cs. is_digit x"
    using assms(2) by (auto simp: d list_all_iff)
  have a: "\<not> is_digit a"
    using assms(4) by (simp add: u alpha_not_digit)
  have tw: "takeWhile is_digit (cs @ u) = cs"
    using c(2) a by (simp add: u)
  have dw: "dropWhile is_digit (cs @ u) = u"
    using c(2) a by (simp add: u)
  show ?thesis
    using c(1) tw dw findall_alpha_run [OF assms(3,4)] by (simp add: d)
qed

lemma findall_runs:
  "r \<in> set (findall s) \<Longrightarrow> r \<noteq> [] \<and> (list_all is_digit r \<or> list_all is_alpha r)"
proof (induction s arbitrary: r rule: findall.induct)
  case 1
  then show ?case by simp
next
  case (2 c cs)
  then show ?case
    by (auto simp: list_all_iff split: if_splits dest: set_takeWhileD)
qed

text \<open>The conversion, case by case.\<close>

lemma convert_str_cases:
  "convert_str s tbl =
     (case findall s of
        [a, u] \<Rightarrow>
          (case map_of tbl (lower u) of
             None \<Rightarrow> Inl (KeyError (lower u))
           | Some m \<Rightarrow>
               if list_all is_digit a \<and> length a \<le> int_max_str_digits
               then py_mul (PInt (int (digits_val a))) m else Inl ValueError)
      | _ \<Rightarrow> Inl ValueError)"
  by (auto simp: convert_str_def int_of_run_def err_bind_def split: list.splits option.splits)

lemma int_to_float_Inr:
  "int_to_float a = Inr x \<longleftrightarrow>
     x = Fin (round_double (of_int a)) \<and> \<bar>round_double (of_int a)\<bar> < 2 ^ 1024"
proof -
  have "int_to_float a = Inr x \<longleftrightarrow> (\<exists>r. fl (of_int a) = Fin r \<and> x = Fin r)"
    by (auto simp: int_to_float_def split: pyfloat.splits)
  then show ?thesis
    unfolding fl_eq_Fin by auto
qed

lemma int_to_float_Inl: "int_to_float a = Inl e \<Longrightarrow> e = OverflowError"
  by (auto simp: int_to_float_def split: pyfloat.splits)

lemma py_mul_Inl: "py_mul x y = Inl e \<Longrightarrow> e = OverflowError"
  by (cases x; cases y) (auto simp: err_bind_def split: sum.splits dest: int_to_float_Inl)

lemma py_add_Inl: "py_add x y = Inl e \<Longrightarrow> e = OverflowError"
  by (cases x; cases y) (auto simp: err_bind_def split: sum.splits dest: int_to_float_Inl)

lemma convert_str_digits_unit:
  assumes "d \<noteq> []" "list_all is_digit d" "length d \<le> int_max_str_digits"
    "u \<noteq> []" "list_all is_alpha u" "map_of tbl (lower u) = Some m"
  shows "convert_str (d @ u) tbl = py_mul (PInt (int (digits_val d))) m"
  using assms by (simp add: convert_str_cases findall_digits_unit)

lemma convert_str_empty: "convert_str [] tbl = Inl ValueError"
  by (simp add: convert_str_def)

text \<open>The multipliers.\<close>

lemma filesize_table_cases:
  "map_of FILESIZE_CONVERSION k = Some m \<Longrightarrow>
     (\<exists>i. m = PInt i \<and> 0 < i) \<or>
     (k = ''b'' \<and> m = PFloat (Fin (1152921504606847 / 1152921504606846976)))"
  by (auto simp: FILESIZE_CONVERSION_def fl_milli split: if_splits)


text \<open>Rounding keeps the order of non-negative numbers.\<close>

lemma fl_mono:
  assumes "0 \<le> x" "x \<le> y"
  shows "float_le (fl x) (fl y)"
proof -
  have m: "round_double x \<le> round_double y"
    using assms by (rule round_double_mono)
  have n: "0 \<le> round_double x"
    using assms(1) by (rule round_double_nonneg)
  show ?thesis
  proof (cases "2 ^ 1024 \<le> round_double y")
    case True
    then have "round_double y \<noteq> 0" by simp
    then have "y \<noteq> 0" by (auto simp: round_double_def)
    then have "0 < y" using assms by simp
    then have y: "fl y = PosInf" using True by (simp add: fl_def Let_def)
    show ?thesis
    proof (cases "2 ^ 1024 \<le> round_double x")
      case True
      then have "round_double x \<noteq> 0" by simp
      then have "x \<noteq> 0" by (auto simp: round_double_def)
      then have "0 < x" using assms by simp
      then show ?thesis using True y by (simp add: fl_def Let_def)
    next
      case False
      then show ?thesis using n y by (simp add: fl_def Let_def)
    qed
  next
    case False
    then show ?thesis using m n by (simp add: fl_def Let_def)
  qed
qed

lemma fl_nonneg: "0 \<le> x \<Longrightarrow> float_le (Fin 0) (fl x)"
  using fl_mono [of 0 x] by simp

lemma py_mul_mono:
  assumes "0 \<le> a" "a \<le> b"
    and "(\<exists>i. m = PInt i \<and> 0 < i) \<or> (\<exists>c. m = PFloat (Fin c) \<and> 0 < c)"
    and "py_mul (PInt b) m = Inr v2"
  shows "\<exists>v1. py_mul (PInt a) m = Inr v1 \<and> num_le v1 v2"
  using assms(3)
proof (elim disjE exE conjE)
  fix i assume m: "m = PInt i" and i: "0 < i"
  have "a * i \<le> b * i" using assms(2) i by (simp add: mult_right_mono)
  then show ?thesis using assms(4) by (auto simp: m)
next
  fix c assume m: "m = PFloat (Fin c)" and c: "0 < c"
  from assms(4) obtain x where "int_to_float b = Inr x" and v2: "v2 = PFloat (float_mul x (Fin c))"
    by (auto simp: m err_bind_eq_Inr)
  then have xb: "x = Fin (round_double (of_int b))" and fb: "\<bar>round_double (of_int b)\<bar> < 2 ^ 1024"
    by (simp_all add: int_to_float_Inr)
  have ab: "round_double (of_int a) \<le> round_double (of_int b)"
    using assms(1,2) by (intro round_double_mono) simp_all
  have a0: "0 \<le> round_double (of_int a)"
    using assms(1) by (intro round_double_nonneg) simp
  have fa: "\<bar>round_double (of_int a)\<bar> < 2 ^ 1024"
    using ab a0 fb by simp
  then have ia: "int_to_float a = Inr (Fin (round_double (of_int a)))"
    by (simp add: int_to_float_Inr)
  have "float_le (fl (round_double (of_int a) * c)) (fl (round_double (of_int b) * c))"
    using a0 ab c by (intro fl_mono) (simp_all add: mult_right_mono)
  then show ?thesis
    by (simp add: m ia err_bind_Inr v2 xb)
qed













lemma py_in_JObj: "py_in k (JObj kvs) = Inr (map_of kvs k \<noteq> None)"
  by (simp add: map_of_eq_None_iff)




















section \<open>The report of the test suite\<close>

text \<open>
  C3: on the report with global options \<^verbatim>\<open>filesize = "50M"\<close> and \<^verbatim>\<open>ramp_time = "10s"\<close>,
  \<^verbatim>\<open>timestamp_ms = 1653027155355\<close> and one job with \<^verbatim>\<open>numjobs = "40"\<close>, a runtime of 60476 ms
  and the metrics of the test file, the extraction returns exactly one record: the job's
  name, file size 50000, 40 threads, start 1653027155, end 1653027226, and the metrics
  unchanged. This holds for any job name \<open>nm\<close>.
\<close>

theorem extract_metrics_good_report:
  "extract_metrics (JObj
     [(''global options'', JObj [(''filesize'', JStr ''50M''), (''ramp_time'', JStr ''10s'')]),
      (''timestamp_ms'', JInt 1653027155355),
      (''jobs'', JList [JObj
         [(''jobname'', nm),
          (''job options'', JObj [(''numjobs'', JStr ''40'')]),
          (''read'', JObj [(''runtime'', JInt 60476), (''iops'', JFloat (fl 95.26093)), (''bw'', JInt 97547),
             (''lat_ns'', JObj [(''min'', JInt 353377760), (''max'', JInt 1697519869),
                               (''mean'', JFloat (fl 417754876.774692))])])]])])
   = Inr [\<lparr>m_jobname = nm, m_filesize = PInt 50000, m_num_threads = 40,
      m_start_time = PInt 1653027155, m_end_time = 1653027226, m_iops = JFloat (fl 95.26093),
      m_bw = JInt 97547, m_lat_min = JInt 353377760, m_lat_max = JInt 1697519869,
      m_lat_mean = JFloat (fl 417754876.774692)\<rparr>]"
  by (simp add: eval_defs)

section \<open>Unit conversion\<close>

lemma mul_1500_milli: "float_mul (Fin 1500) (fl (1 / 1000)) = Fin (3 / 2)"
proof -
  have "round_double (1500 * (1152921504606847 / 1152921504606846976)) =
          of_int 6755399441055744 * 2 powi (0 - 52)"
    by (rule round_double_eqI) simp_all
  then have "round_double (1500 * (1152921504606847 / 1152921504606846976)) = 3 / 2"
    by simp
  then have "fl (1500 * (1152921504606847 / 1152921504606846976)) = Fin (3 / 2)"
    by (simp add: fl_eq_Fin)
  then show ?thesis by (simp add: fl_milli)
qed

lemma int_to_float_1500: "int_to_float 1500 = Inr (Fin 1500)"
  using fl_of_int [of 1500] by (simp add: int_to_float_def)

text \<open>
  C4: the claim is that the converted file size is the number times the multiplier of the
  table, truncated to an integer. The docstring of \<^verbatim>\<open>_convert_value\<close> promises an \<^verbatim>\<open>Int\<close> as
  well, but the function returns the product as it is: with the unit \<^verbatim>\<open>b\<close>, whose multiplier
  is the float 0.001, \<^verbatim>\<open>"1500b"\<close> is converted to the float 1.5, which is neither truncated
  nor an integer.
\<close>

theorem convert_value_bytes_not_integer:
  "convert_value (JStr ''1500b'') FILESIZE_CONVERSION = Inr (PFloat (Fin (3 / 2))) \<and>
   (\<forall>i. convert_value (JStr ''1500b'') FILESIZE_CONVERSION \<noteq> Inr (PInt i))"
proof -
  have "findall ''1500b'' = [''1500'', ''b'']"
    by (simp add: is_digit_def is_alpha_def)
  then have "convert_value (JStr ''1500b'') FILESIZE_CONVERSION =
               py_mul (PInt 1500) (PFloat (fl (1 / 1000)))"
    by (simp add: convert_str_cases FILESIZE_CONVERSION_def lower_def lower_char_def is_digit_def
        int_max_str_digits_def digits_val_def digit_val_def)
  then show ?thesis
    by (simp add: int_to_float_1500 err_bind_Inr mul_1500_milli)
qed

lemma int_to_float_Inl_iff:
  "int_to_float a = Inl e \<longleftrightarrow> e = OverflowError \<and> 2 ^ 1024 \<le> \<bar>round_double (of_int a)\<bar>"
proof -
  have a: "(\<exists>x. int_to_float a = Inr x) \<longleftrightarrow> \<bar>round_double (of_int a)\<bar> < 2 ^ 1024"
    by (auto simp: int_to_float_Inr)
  show ?thesis
  proof (cases "int_to_float a")
    case (Inl e')
    then have "e' = OverflowError" by (rule int_to_float_Inl)
    moreover have "\<not> \<bar>round_double (of_int a)\<bar> < 2 ^ 1024"
      using a Inl by auto
    ultimately show ?thesis using Inl by auto
  next
    case (Inr x)
    then have "\<bar>round_double (of_int a)\<bar> < 2 ^ 1024" using a by blast
    then show ?thesis using Inr by auto
  qed
qed

lemma err_bind_Inr_eq_Inl: "err_bind m (\<lambda>x. Inr (g x)) = Inl e \<longleftrightarrow> m = Inl e"
  by (cases m) (simp_all add: err_bind_def)

lemma py_mul_overflow:
  "py_mul (PInt n) m = Inl e \<longleftrightarrow>
     e = OverflowError \<and> (\<exists>f. m = PFloat f) \<and> 2 ^ 1024 \<le> \<bar>round_double (of_int n)\<bar>"
proof (cases m)
  case (PInt i)
  then show ?thesis by simp
next
  case (PFloat f)
  then show ?thesis
    by (simp add: err_bind_Inr_eq_Inl int_to_float_Inl_iff)
qed

text \<open>
  C8, as stated: \<^verbatim>\<open>ValueError\<close> (Malformed Value) exactly when the string is not a leading
  run of digits followed by a trailing run of letters, and \<^verbatim>\<open>KeyError\<close> (Unknown Unit)
  exactly when it splits into one numeric and one alphabetic run whose unit is not in the
  table. The code only counts the runs the regular expression finds and ignores every
  other character: \<^verbatim>\<open>"50 M"\<close> is not of the described form and is converted to 50000, and
  \<^verbatim>\<open>"5 6"\<close>, which has no alphabetic run, fails with \<^verbatim>\<open>KeyError\<close>.
\<close>

theorem convert_value_errors_counterexample:
  "\<not> leading_digits_trailing_letters ''50 M'' \<and>
   convert_value (JStr ''50 M'') FILESIZE_CONVERSION = Inr (PInt 50000) \<and>
   findall ''5 6'' = [''5'', ''6''] \<and>
   convert_value (JStr ''5 6'') FILESIZE_CONVERSION = Inl (KeyError ''6'')"
  by (simp add: eval_defs leading_digits_trailing_letters_def)

text \<open>
  C8, amended: every run found is a non-empty run of digits or of letters. The conversion
  fails with \<^verbatim>\<open>KeyError\<close> exactly when exactly two runs are found and the second, in lower
  case, is not a key of the table. It fails with \<^verbatim>\<open>ValueError\<close> exactly when the number of
  runs found is not two, or two runs are found, the second is a key of the table and the
  first is not a run of digits or is longer than the digits \<^verbatim>\<open>int\<close> accepts (4300 unless
  the interpreter is configured otherwise). It fails with \<^verbatim>\<open>OverflowError\<close> exactly when the
  two runs are an accepted number and a unit whose multiplier is a float, and the number is
  beyond the doubles. It fails in no other way.
\<close>

theorem convert_value_errors:
  "((convert_value (JStr s) tbl = Inl (KeyError k)) =
      (\<exists>a u. findall s = [a, u] \<and> map_of tbl (lower u) = None \<and> k = lower u)) \<and>
   ((convert_value (JStr s) tbl = Inl ValueError) =
      (length (findall s) \<noteq> 2 \<or>
       (\<exists>a u. findall s = [a, u] \<and> map_of tbl (lower u) \<noteq> None \<and>
              (\<not> list_all is_digit a \<or> int_max_str_digits < length a)))) \<and>
   ((convert_value (JStr s) tbl = Inl OverflowError) =
      (\<exists>a u f. findall s = [a, u] \<and> map_of tbl (lower u) = Some (PFloat f) \<and>
         list_all is_digit a \<and> length a \<le> int_max_str_digits \<and>
         2 ^ 1024 \<le> \<bar>round_double (of_int (int (digits_val a)))\<bar>)) \<and>
   convert_value (JStr s) tbl \<noteq> Inl TypeError \<and>
   convert_value (JStr s) tbl \<noteq> Inl (NoValuesError msg) \<and>
   (\<forall>r \<in> set (findall s). r \<noteq> [] \<and> (list_all is_digit r \<or> list_all is_alpha r))"
proof (intro conjI)
  show "(convert_value (JStr s) tbl = Inl (KeyError k)) =
      (\<exists>a u. findall s = [a, u] \<and> map_of tbl (lower u) = None \<and> k = lower u)"
    by (auto simp: convert_str_cases py_mul_overflow split: list.splits option.splits if_splits)
  show "(convert_value (JStr s) tbl = Inl ValueError) =
      (length (findall s) \<noteq> 2 \<or>
       (\<exists>a u. findall s = [a, u] \<and> map_of tbl (lower u) \<noteq> None \<and>
              (\<not> list_all is_digit a \<or> int_max_str_digits < length a)))"
    by (auto simp: convert_str_cases py_mul_overflow split: list.splits option.splits if_splits)
  show "(convert_value (JStr s) tbl = Inl OverflowError) =
      (\<exists>a u f. findall s = [a, u] \<and> map_of tbl (lower u) = Some (PFloat f) \<and>
         list_all is_digit a \<and> length a \<le> int_max_str_digits \<and>
         2 ^ 1024 \<le> \<bar>round_double (of_int (int (digits_val a)))\<bar>)"
    by (auto simp: convert_str_cases py_mul_overflow split: list.splits option.splits if_splits)
  show "convert_value (JStr s) tbl \<noteq> Inl TypeError"
    by (auto simp: convert_str_cases py_mul_overflow split: list.splits option.splits if_splits)
  show "convert_value (JStr s) tbl \<noteq> Inl (NoValuesError msg)"
    by (auto simp: convert_str_cases py_mul_overflow split: list.splits option.splits if_splits)
  show "\<forall>r \<in> set (findall s). r \<noteq> [] \<and> (list_all is_digit r \<or> list_all is_alpha r)"
    using findall_runs by blast
qed

text \<open>
  An unknown unit, a string with one run, a letter run before a known unit, and a number
  of 4301 digits.
\<close>

theorem convert_value_errors_witness:
  "convert_value (JStr ''50x'') FILESIZE_CONVERSION = Inl (KeyError ''x'') \<and>
   convert_value (JStr ''50'') FILESIZE_CONVERSION = Inl ValueError \<and>
   convert_value (JStr ''a b'') FILESIZE_CONVERSION = Inl ValueError \<and>
   convert_value (JStr (replicate 4301 (CHR ''1'') @ ''k'')) FILESIZE_CONVERSION = Inl ValueError"
proof -
  have 1: "findall ''50x'' = [''50'', ''x'']" "findall ''50'' = [''50'']"
    "findall ''a b'' = [''a'', ''b'']"
    by (simp_all add: is_digit_def is_alpha_def)
  have 2: "findall (replicate 4301 (CHR ''1'') @ ''k'') = [replicate 4301 (CHR ''1''), ''k'']"
    by (rule findall_digits_unit) (simp_all add: list_all_iff is_digit_def is_alpha_def)
  have 3: "map_of FILESIZE_CONVERSION (lower ''k'') = Some (PInt 1)"
    by (simp add: FILESIZE_CONVERSION_def lower_def lower_char_def)
  have "convert_value (JStr (replicate 4301 (CHR ''1'') @ ''k'')) FILESIZE_CONVERSION =
          Inl ValueError"
    using convert_value_errors [of "replicate 4301 (CHR ''1'') @ ''k''" FILESIZE_CONVERSION]
    unfolding 2 by (simp add: 3 int_max_str_digits_def)
  moreover have "convert_value (JStr ''50x'') FILESIZE_CONVERSION = Inl (KeyError ''x'') \<and>
   convert_value (JStr ''50'') FILESIZE_CONVERSION = Inl ValueError \<and>
   convert_value (JStr ''a b'') FILESIZE_CONVERSION = Inl ValueError"
    using convert_value_errors [of "''50x''" FILESIZE_CONVERSION "''x''"]
      convert_value_errors [of "''50''" FILESIZE_CONVERSION]
      convert_value_errors [of "''a b''" FILESIZE_CONVERSION]
    unfolding 1
    by (simp add: FILESIZE_CONVERSION_def lower_def lower_char_def is_digit_def)
  ultimately show ?thesis by blast
qed

lemma int_to_float_bounded:
  assumes "0 \<le> n" "n \<le> 2 ^ 1023"
  shows "\<exists>x. int_to_float n = Inr x"
proof -
  have "(2::rat) ^ 1023 = of_int 1 * 2 powi 1023" by simp
  then have r: "round_double (2 ^ 1023) = 2 ^ 1023"
    by (rule round_double_representable) simp_all
  have "(of_int n :: rat) \<le> of_int (2 ^ 1023)" using assms(2) by (simp only: of_int_le_iff)
  then have "round_double (of_int n) \<le> round_double (2 ^ 1023)"
    using assms(1) by (intro round_double_mono) simp_all
  moreover have "0 \<le> round_double (of_int n)"
    using assms(1) by (intro round_double_nonneg) simp
  ultimately have "\<bar>round_double (of_int n)\<bar> < 2 ^ 1024" using r by simp
  then show ?thesis by (simp add: int_to_float_Inr)
qed

text \<open>
  C9: take a recognised size unit \<open>u\<close> (in any letter case) and two runs of digits \<open>d1\<close>,
  \<open>d2\<close> that \<^verbatim>\<open>int\<close> accepts, with ordered values. If the conversion of the larger number
  returns, so does the conversion of the smaller one, and the results are in the same order
  (\<^verbatim>\<open>v1 <= v2\<close> in Python). Both conversions do return when the multiplier is an integer (every
  unit but \<^verbatim>\<open>b\<close>), or when the larger number is at most \<open>2 ^ 1023\<close>; beyond the doubles the
  unit \<^verbatim>\<open>b\<close> ends in \<^verbatim>\<open>OverflowError\<close>.
\<close>

theorem convert_value_monotonic:
  assumes "d1 \<noteq> []" "list_all is_digit d1" "length d1 \<le> int_max_str_digits"
    and "d2 \<noteq> []" "list_all is_digit d2" "length d2 \<le> int_max_str_digits"
    and "list_all is_alpha u" "map_of FILESIZE_CONVERSION (lower u) = Some m"
    and "digits_val d1 \<le> digits_val d2"
  shows "(\<forall>v2. convert_value (JStr (d2 @ u)) FILESIZE_CONVERSION = Inr v2 \<longrightarrow>
           (\<exists>v1. convert_value (JStr (d1 @ u)) FILESIZE_CONVERSION = Inr v1 \<and> num_le v1 v2)) \<and>
         (lower u \<noteq> ''b'' \<or> int (digits_val d2) \<le> 2 ^ 1023 \<longrightarrow>
           (\<exists>v1 v2. convert_value (JStr (d1 @ u)) FILESIZE_CONVERSION = Inr v1 \<and>
                    convert_value (JStr (d2 @ u)) FILESIZE_CONVERSION = Inr v2 \<and> num_le v1 v2))"
proof -
  have u: "u \<noteq> []"
    using assms(8) by (auto simp: lower_def FILESIZE_CONVERSION_def)
  have c1: "convert_value (JStr (d1 @ u)) FILESIZE_CONVERSION = py_mul (PInt (int (digits_val d1))) m"
    using assms u by (simp add: convert_str_digits_unit)
  have c2: "convert_value (JStr (d2 @ u)) FILESIZE_CONVERSION = py_mul (PInt (int (digits_val d2))) m"
    using assms u by (simp add: convert_str_digits_unit)
  have tbl: "(\<exists>i. m = PInt i \<and> 0 < i) \<or>
             (lower u = ''b'' \<and> m = PFloat (Fin (1152921504606847 / 1152921504606846976)))"
    using assms(8) by (rule filesize_table_cases)
  then have pos: "(\<exists>i. m = PInt i \<and> 0 < i) \<or> (\<exists>c. m = PFloat (Fin c) \<and> 0 < c)"
    by auto
  have mono: "\<exists>v1. py_mul (PInt (int (digits_val d1))) m = Inr v1 \<and> num_le v1 v2"
    if "py_mul (PInt (int (digits_val d2))) m = Inr v2" for v2
    using assms(9) by (intro py_mul_mono [OF _ _ pos that]) simp_all
  have ret: "\<exists>v2. py_mul (PInt (int (digits_val d2))) m = Inr v2"
    if "lower u \<noteq> ''b'' \<or> int (digits_val d2) \<le> 2 ^ 1023"
    using tbl
  proof (elim disjE exE conjE)
    fix i assume "m = PInt i"
    then show ?thesis by simp
  next
    assume b: "lower u = ''b''" and m: "m = PFloat (Fin (1152921504606847 / 1152921504606846976))"
    with that have "int (digits_val d2) \<le> 2 ^ 1023" by simp
    from int_to_float_bounded [OF _ this] obtain x where "int_to_float (int (digits_val d2)) = Inr x"
      by auto
    then show ?thesis by (simp add: m err_bind_Inr)
  qed
  show ?thesis
    unfolding c1 c2 using mono ret by blast
qed

text \<open>\<^verbatim>\<open>"5Gb"\<close> and \<^verbatim>\<open>"50Gb"\<close>.\<close>

theorem convert_value_monotonic_witness:
  "convert_value (JStr ''5Gb'') FILESIZE_CONVERSION = Inr (PInt 5000000) \<and>
   convert_value (JStr ''50Gb'') FILESIZE_CONVERSION = Inr (PInt 50000000) \<and>
   (\<exists>v1 v2. convert_value (JStr (''5'' @ ''Gb'')) FILESIZE_CONVERSION = Inr v1 \<and>
            convert_value (JStr (''50'' @ ''Gb'')) FILESIZE_CONVERSION = Inr v2 \<and>
            num_le v1 v2)"
proof -
  have "(\<forall>v2. convert_value (JStr (''50'' @ ''Gb'')) FILESIZE_CONVERSION = Inr v2 \<longrightarrow>
           (\<exists>v1. convert_value (JStr (''5'' @ ''Gb'')) FILESIZE_CONVERSION = Inr v1 \<and> num_le v1 v2)) \<and>
         (lower ''Gb'' \<noteq> ''b'' \<or> int (digits_val ''50'') \<le> 2 ^ 1023 \<longrightarrow>
           (\<exists>v1 v2. convert_value (JStr (''5'' @ ''Gb'')) FILESIZE_CONVERSION = Inr v1 \<and>
                    convert_value (JStr (''50'' @ ''Gb'')) FILESIZE_CONVERSION = Inr v2 \<and>
                    num_le v1 v2))"
    by (rule convert_value_monotonic [where m = "PInt (10 ^ 6)"])
       (simp_all add: eval_defs)
  moreover have "lower ''Gb'' \<noteq> ''b''"
    by (simp add: lower_def lower_char_def)
  moreover have "convert_value (JStr ''5Gb'') FILESIZE_CONVERSION = Inr (PInt 5000000)"
    "convert_value (JStr ''50Gb'') FILESIZE_CONVERSION = Inr (PInt 50000000)"
    by (simp_all add: eval_defs)
  ultimately show ?thesis by blast
qed

text \<open>
  Beyond the doubles the unit \<^verbatim>\<open>b\<close> has no result: \<^verbatim>\<open>int(num) * 0.001\<close> converts the integer to
  a float first, and \<open>10 ^ 400\<close> has none.
\<close>

lemma foldl_digits_zeros:
  "foldl (\<lambda>a c. 10 * a + digit_val c) a (replicate n (CHR ''0'')) = a * 10 ^ n"
  by (induction n arbitrary: a) (simp_all add: digit_val_def)

lemma digits_val_one_zeros: "digits_val (''1'' @ replicate n (CHR ''0'')) = 10 ^ n"
proof -
  have "digit_val (CHR ''1'') = 1" by (simp add: digit_val_def)
  then show ?thesis by (simp add: digits_val_def foldl_digits_zeros)
qed

lemma convert_value_beyond_doubles:
  "convert_value (JStr (''1'' @ replicate 400 (CHR ''0'') @ ''b'')) FILESIZE_CONVERSION =
     Inl OverflowError"
proof -
  have c: "convert_str ((''1'' @ replicate 400 (CHR ''0'')) @ ''b'') FILESIZE_CONVERSION =
        py_mul (PInt (int (digits_val (''1'' @ replicate 400 (CHR ''0''))))) (PFloat (fl (1 / 1000)))"
    by (rule convert_str_digits_unit)
       (simp_all add: list_all_iff is_digit_def is_alpha_def int_max_str_digits_def
          FILESIZE_CONVERSION_def lower_def lower_char_def)
  have d: "int (digits_val (''1'' @ replicate 400 (CHR ''0''))) = 10 ^ 400"
    by (simp only: digits_val_one_zeros) simp
  have "(2::rat) ^ 1024 = of_int 1 * 2 powi 1024" by simp
  then have r: "round_double (2 ^ 1024) = 2 ^ 1024"
    by (rule round_double_representable) simp_all
  have "round_double (2 ^ 1024) \<le> round_double (of_int (10 ^ 400))"
    by (intro round_double_mono) simp_all
  then have "2 ^ 1024 \<le> \<bar>round_double (of_int (10 ^ 400))\<bar>"
    unfolding r by simp
  then have "py_mul (PInt (10 ^ 400)) (PFloat (fl (1 / 1000))) = Inl OverflowError"
    unfolding py_mul_overflow by blast
  then have "convert_str ((''1'' @ replicate 400 (CHR ''0'')) @ ''b'') FILESIZE_CONVERSION =
        Inl OverflowError"
    using c unfolding d by simp
  then show ?thesis
    by (simp only: convert_value.simps append_assoc)
qed

section \<open>Option resolution\<close>

text \<open>
  C1, as stated: each of \<^verbatim>\<open>filesize\<close>, \<^verbatim>\<open>ramp_time\<close> and \<^verbatim>\<open>numjobs\<close> is taken from the job's
  options, else from the global options, else from a default, and a value of the job always
  wins over the global one. The code never reads a global \<^verbatim>\<open>numjobs\<close>, and a job's
  \<^verbatim>\<open>ramp_time\<close> that converts to 0 is replaced by the global one: with global
  \<^verbatim>\<open>numjobs = "8"\<close>, \<^verbatim>\<open>ramp_time = "10s"\<close> and a job with \<^verbatim>\<open>ramp_time = "0s"\<close> and no \<^verbatim>\<open>numjobs\<close>, the
  record has 1 thread and an end time that includes the 10 seconds.
\<close>

theorem option_resolution_counterexample:
  "extract_metrics (JObj
     [(''global options'', JObj [(''filesize'', JStr ''50M''), (''ramp_time'', JStr ''10s''),
                                 (''numjobs'', JStr ''8'')]),
      (''timestamp_ms'', JInt 1653027155355),
      (''jobs'', JList [JObj
         [(''jobname'', JStr ''1_thread''),
          (''job options'', JObj [(''ramp_time'', JStr ''0s'')]),
          (''read'', JObj [(''runtime'', JInt 60476), (''iops'', JFloat (fl 95.26093)), (''bw'', JInt 97547),
             (''lat_ns'', JObj [(''min'', JInt 353377760), (''max'', JInt 1697519869),
                               (''mean'', JFloat (fl 417754876.774692))])])]])])
   = Inr [\<lparr>m_jobname = JStr ''1_thread'', m_filesize = PInt 50000, m_num_threads = 1,
      m_start_time = PInt 1653027155, m_end_time = 1653027226, m_iops = JFloat (fl 95.26093),
      m_bw = JInt 97547, m_lat_min = JInt 353377760, m_lat_max = JInt 1697519869,
      m_lat_mean = JFloat (fl 417754876.774692)\<rparr>]"
  by (simp add: eval_defs)

text \<open>
  C1, amended. Let \<open>go\<close> be the global options of the report and \<open>jo\<close> the options of the
  job (empty when the key is absent). The global file size is \<open>go\<close>'s \<^verbatim>\<open>filesize\<close>, else
  \<^verbatim>\<open>''\<close>; the global ramp time is \<open>go\<close>'s converted \<^verbatim>\<open>ramp_time\<close>, else 0. For the job,
  \<^verbatim>\<open>numjobs\<close> is \<open>jo\<close>'s \<^verbatim>\<open>numjobs\<close>, else \<^verbatim>\<open>'1'\<close>, whatever the global options say;
  \<^verbatim>\<open>filesize\<close> is \<open>jo\<close>'s \<^verbatim>\<open>filesize\<close> when present and truthy, else the global file size;
  \<^verbatim>\<open>ramptime_ms\<close> is \<open>jo\<close>'s converted \<^verbatim>\<open>ramp_time\<close> when present and not 0, else the global
  ramp time. The only failure is that of converting a \<^verbatim>\<open>ramp_time\<close>.
\<close>

theorem option_resolution:
  assumes "map_of doc GLOBAL_OPTS = None \<and> go = [] \<or> map_of doc GLOBAL_OPTS = Some (JObj go)"
    and "map_of j JOB_OPTS = None \<and> jo = [] \<or> map_of j JOB_OPTS = Some (JObj jo)"
  shows "global_options (JObj doc) =
           err_bind (case map_of go RAMPTIME of None \<Rightarrow> Inr (PInt 0)
                     | Some v \<Rightarrow> convert_value v RAMPTIME_CONVERSION)
             (\<lambda>r. Inr (case map_of go FILESIZE of None \<Rightarrow> JStr [] | Some v \<Rightarrow> v, r)) \<and>
         job_options gfs gr (JObj j) =
           err_bind (case map_of jo RAMPTIME of None \<Rightarrow> Inr (PInt 0)
                     | Some v \<Rightarrow> convert_value v RAMPTIME_CONVERSION)
             (\<lambda>r. Inr (case map_of jo NUMJOBS of None \<Rightarrow> JStr ''1'' | Some v \<Rightarrow> v,
                        case map_of jo FILESIZE of None \<Rightarrow> gfs
                        | Some v \<Rightarrow> if truthy v then v else gfs,
                        if num_eq_int r 0 then gr else r))"
proof
  from assms(1) show "global_options (JObj doc) =
           err_bind (case map_of go RAMPTIME of None \<Rightarrow> Inr (PInt 0)
                     | Some v \<Rightarrow> convert_value v RAMPTIME_CONVERSION)
             (\<lambda>r. Inr (case map_of go FILESIZE of None \<Rightarrow> JStr [] | Some v \<Rightarrow> v, r))"
  proof
    assume "map_of doc GLOBAL_OPTS = None \<and> go = []"
    then show ?thesis
      by (simp add: global_options_def py_in_JObj del: py_in.simps add: err_bind_Inr)
  next
    assume "map_of doc GLOBAL_OPTS = Some (JObj go)"
    then show ?thesis
      by (cases "map_of go FILESIZE"; cases "map_of go RAMPTIME")
         (simp_all add: global_options_def py_in_JObj del: py_in.simps add: err_bind_def)
  qed
  from assms(2) show "job_options gfs gr (JObj j) =
           err_bind (case map_of jo RAMPTIME of None \<Rightarrow> Inr (PInt 0)
                     | Some v \<Rightarrow> convert_value v RAMPTIME_CONVERSION)
             (\<lambda>r. Inr (case map_of jo NUMJOBS of None \<Rightarrow> JStr ''1'' | Some v \<Rightarrow> v,
                        case map_of jo FILESIZE of None \<Rightarrow> gfs
                        | Some v \<Rightarrow> if truthy v then v else gfs,
                        if num_eq_int r 0 then gr else r))"
  proof
    assume "map_of j JOB_OPTS = None \<and> jo = []"
    then show ?thesis
      by (simp add: job_options_def py_in_JObj del: py_in.simps add: err_bind_Inr)
  next
    assume "map_of j JOB_OPTS = Some (JObj jo)"
    then show ?thesis
      by (cases "map_of jo NUMJOBS"; cases "map_of jo FILESIZE"; cases "map_of jo RAMPTIME")
         (simp_all add: job_options_def py_in_JObj del: py_in.simps add: err_bind_def
            split: sum.splits)
  qed
qed

text \<open>Global options with all three keys, and a job that overrides the file size only.\<close>

theorem option_resolution_witness:
  "global_options (JObj [(''global options'',
       JObj [(''filesize'', JStr ''50M''), (''ramp_time'', JStr ''10s''), (''numjobs'', JStr ''8'')])])
     = Inr (JStr ''50M'', PInt 10000) \<and>
   job_options (JStr ''50M'') (PInt 10000)
     (JObj [(''jobname'', JStr ''1_thread''), (''job options'', JObj [(''filesize'', JStr ''3G'')])])
     = Inr (JStr ''1'', JStr ''3G'', PInt 10000)"
  using option_resolution [of
      "[(''global options'',
         JObj [(''filesize'', JStr ''50M''), (''ramp_time'', JStr ''10s''), (''numjobs'', JStr ''8'')])]"
      "[(''filesize'', JStr ''50M''), (''ramp_time'', JStr ''10s''), (''numjobs'', JStr ''8'')]"
      "[(''jobname'', JStr ''1_thread''), (''job options'', JObj [(''filesize'', JStr ''3G'')])]"
      "[(''filesize'', JStr ''3G'')]" "JStr ''50M''" "PInt 10000"]
  by (simp add: key_defs err_bind_def convert_str_def is_digit_def is_alpha_def lower_def
      lower_char_def digit_val_def digits_val_def int_of_run_def int_max_str_digits_def
      RAMPTIME_CONVERSION_def)

section \<open>Reading the metrics of a job\<close>




section \<open>Chaining the time windows\<close>



section \<open>The time window of an emitted record\<close>



text \<open>
  The bound matters. With \<^verbatim>\<open>timestamp_ms = 9007199254740993000\<close> and a job that takes no time,
  \<^verbatim>\<open>start_time_ms // 1000\<close> is the exact integer \<open>2 ^ 53 + 1\<close>, whereas \<^verbatim>\<open>end_time_ms / 1000\<close> is
  the nearest double, \<open>2 ^ 53\<close>: the two differ, the job passes the filter, and the record
  ends one second before it starts.
\<close>

lemma rhe_tie_even: "even n \<Longrightarrow> round_half_even (of_int n + 1 / 2) = n"
proof -
  assume n: "even n"
  have "\<lfloor>(of_int n :: rat) + 1 / 2\<rfloor> = n"
    by (rule floor_unique) simp_all
  then show ?thesis
    using n by (simp add: round_half_even_def Let_def)
qed

lemma round_div_1000_beyond_doubles:
  "round_div_1000 (PInt 9007199254740993000) = Inr 9007199254740992"
proof -
  have "round_half_even ((9007199254740993 :: rat) / 2) = 4503599627370496"
    using rhe_tie_even [of 4503599627370496] by simp
  moreover have "round_double 9007199254740993 =
      of_int (round_half_even (9007199254740993 / 2 powi (max 53 (- 1022) - 52))) *
        2 powi (max 53 (- 1022) - 52)"
    by (rule round_double_eq) simp_all
  ultimately have "round_double 9007199254740993 = 9007199254740992"
    by simp
  then have "fl 9007199254740993 = Fin 9007199254740992"
    by (simp add: fl_eq_Fin)
  then show ?thesis
    by (simp add: round_div_1000_def err_bind_Inr)
qed

lemma emitted_window_beyond_doubles:
  "extract_metrics (JObj
     [(''global options'', JObj [(''filesize'', JStr ''50M'')]),
      (''timestamp_ms'', JInt 9007199254740993000),
      (''jobs'', JList [JObj
         [(''jobname'', JStr ''1_thread''),
          (''read'', JObj [(''runtime'', JInt 0), (''iops'', JFloat (fl 95.26093)), (''bw'', JInt 97547),
             (''lat_ns'', JObj [(''min'', JInt 353377760), (''max'', JInt 1697519869),
                               (''mean'', JFloat (fl 417754876.774692))])])]])])
   = Inr [\<lparr>m_jobname = JStr ''1_thread'', m_filesize = PInt 50000, m_num_threads = 1,
      m_start_time = PInt 9007199254740993, m_end_time = 9007199254740992,
      m_iops = JFloat (fl 95.26093), m_bw = JInt 97547, m_lat_min = JInt 353377760,
      m_lat_max = JInt 1697519869, m_lat_mean = JFloat (fl 417754876.774692)\<rparr>]"
  by (simp add: eval_defs round_div_1000_beyond_doubles)

section \<open>Empty data\<close>

text \<open>
  C7: the extraction fails with \<^verbatim>\<open>NoValuesError('No data in json object')\<close>, and with
  nothing else, on every falsy document, in particular on \<^verbatim>\<open>None\<close> and on the empty dict.
  On a document whose global options and job list can be read and whose jobs are all
  removed by the filter, it fails with \<^verbatim>\<open>NoValuesError\<close> carrying the other message,
  \<^verbatim>\<open>'No data could be extracted from file'\<close>.
\<close>

theorem extract_metrics_empty_data:
  "extract_metrics JNull = Inl (NoValuesError ''No data in json object'') \<and>
   extract_metrics (JObj []) = Inl (NoValuesError ''No data in json object'') \<and>
   (\<not> truthy fio_out \<longrightarrow> extract_metrics fio_out = Inl (NoValuesError ''No data in json object'')) \<and>
   (truthy fio_out \<and> global_options fio_out = Inr (gfs, gr) \<and> py_getitem fio_out JOBS = Inr jobs_v \<and>
    py_iter jobs_v = Inr jobs \<and> (\<forall>job \<in> set jobs. job_step fio_out gfs gr 0 job = Inr (0, None)) \<longrightarrow>
      extract_metrics fio_out = Inl (NoValuesError ''No data could be extracted from file'')) \<and>
   NoValuesError ''No data in json object'' \<noteq> NoValuesError ''No data could be extracted from file''"
proof -
  have a: "\<not> truthy doc \<Longrightarrow> extract_metrics doc = Inl (NoValuesError ''No data in json object'')"
    for doc
    by (simp add: extract_metrics_def)
  have b: "extract_metrics fio_out = Inl (NoValuesError ''No data could be extracted from file'')"
    if "truthy fio_out" "global_options fio_out = Inr (gfs, gr)" "py_getitem fio_out JOBS = Inr jobs_v"
      "py_iter jobs_v = Inr jobs" "\<forall>job \<in> set jobs. job_step fio_out gfs gr 0 job = Inr (0, None)"
    using that jobs_loop_all_skipped [of jobs fio_out gfs gr "[]"]
    by (simp add: extract_metrics_def err_bind_Inr)
  show ?thesis using a b by simp
qed

text \<open>A report whose only job has an empty name and zero metrics, and the empty list.\<close>

theorem extract_metrics_empty_data_witness:
  "truthy (JObj [(''timestamp_ms'', JInt 1653027155355), (''jobs'', JList [
       JObj [(''jobname'', JStr ''''),
         (''read'', JObj [(''runtime'', JInt 0), (''iops'', JFloat (Fin 0)), (''bw'', JInt 0),
         (''lat_ns'', JObj [(''min'', JInt 0), (''max'', JInt 0), (''mean'', JFloat (Fin 0))])])]])]) \<and>
   extract_metrics (JObj [(''timestamp_ms'', JInt 1653027155355), (''jobs'', JList [
       JObj [(''jobname'', JStr ''''),
         (''read'', JObj [(''runtime'', JInt 0), (''iops'', JFloat (Fin 0)), (''bw'', JInt 0),
         (''lat_ns'', JObj [(''min'', JInt 0), (''max'', JInt 0), (''mean'', JFloat (Fin 0))])])]])])
     = Inl (NoValuesError ''No data could be extracted from file'') \<and>
   extract_metrics (JList []) = Inl (NoValuesError ''No data in json object'')"
  using extract_metrics_empty_data [of
     "JObj [(''timestamp_ms'', JInt 1653027155355), (''jobs'', JList [
       JObj [(''jobname'', JStr ''''),
         (''read'', JObj [(''runtime'', JInt 0), (''iops'', JFloat (Fin 0)), (''bw'', JInt 0),
         (''lat_ns'', JObj [(''min'', JInt 0), (''max'', JInt 0), (''mean'', JFloat (Fin 0))])])]])]"
     "JStr []" "PInt 0"
     "JList [JObj [(''jobname'', JStr ''''),
         (''read'', JObj [(''runtime'', JInt 0), (''iops'', JFloat (Fin 0)), (''bw'', JInt 0),
         (''lat_ns'', JObj [(''min'', JInt 0), (''max'', JInt 0), (''mean'', JFloat (Fin 0))])])]]"
     "[JObj [(''jobname'', JStr ''''),
         (''read'', JObj [(''runtime'', JInt 0), (''iops'', JFloat (Fin 0)), (''bw'', JInt 0),
         (''lat_ns'', JObj [(''min'', JInt 0), (''max'', JInt 0), (''mean'', JFloat (Fin 0))])])]]"]
    extract_metrics_empty_data [of "JList []"]
  by (simp add: key_defs global_options_def err_bind_def read_metrics_def job_options_def
      time_window_def skip_job_def job_step_def round_div_1000_numeral Let_def)

section \<open>A job without a file size\<close>

text \<open>
  C10: take a report whose first job has a truthy name, metrics that are not all zero, a
  window with different start and end, and no file size in its own options nor in the
  global ones, so that the resolved \<^verbatim>\<open>filesize\<close> is the empty string. The job passes the
  filter, \<^verbatim>\<open>_convert_value('', FILESIZE_CONVERSION)\<close> raises \<^verbatim>\<open>ValueError\<close> (no run to unpack),
  and the whole extraction ends with that exception instead of skipping the job.
\<close>

theorem empty_filesize_aborts:
  assumes "truthy fio_out" "global_options fio_out = Inr (gfs, gr)"
    and "py_getitem fio_out JOBS = Inr jobs_v" "py_iter jobs_v = Inr (job # rest)"
    and "read_metrics job = Inr (jobname, job_read, iops, bw_kibps, min_lat_ns, max_lat_ns, mean_lat_ns)"
    and "job_options gfs gr job = Inr (numjobs, JStr [], ramptime_ms)"
    and "time_window fio_out 0 job_read ramptime_ms = Inr (start_time_s, end_time_s)"
    and "truthy jobname" "\<not> num_eq_int start_time_s end_time_s"
    and "truthy iops \<or> truthy bw_kibps \<or> truthy min_lat_ns \<or> truthy max_lat_ns \<or> truthy mean_lat_ns"
  shows "job_step fio_out gfs gr 0 job = Inl ValueError \<and> extract_metrics fio_out = Inl ValueError"
proof -
  have skip: "\<not> skip_job jobname (JStr []) start_time_s end_time_s iops bw_kibps
                 min_lat_ns max_lat_ns mean_lat_ns"
    using assms(8-10) by (auto simp: skip_job_def)
  have step: "job_step fio_out gfs gr 0 job = Inl ValueError"
    using assms(5-7) skip
    by (simp add: job_step_def err_bind_Inr err_bind_Inl convert_str_empty)
  then show ?thesis
    using assms(1-4) by (simp add: extract_metrics_def err_bind_Inr err_bind_Inl)
qed

text \<open>The report of the test suite without its global options.\<close>

theorem empty_filesize_aborts_witness:
  "extract_metrics (JObj
     [(''timestamp_ms'', JInt 1653027155355),
      (''jobs'', JList [JObj
         [(''jobname'', JStr ''1_thread''),
          (''read'', JObj [(''runtime'', JInt 60476), (''iops'', JFloat (fl 95.26093)), (''bw'', JInt 97547),
             (''lat_ns'', JObj [(''min'', JInt 353377760), (''max'', JInt 1697519869),
                               (''mean'', JFloat (fl 417754876.774692))])])]])]) = Inl ValueError"
proof -
  let ?read = "JObj [(''runtime'', JInt 60476), (''iops'', JFloat (fl 95.26093)), (''bw'', JInt 97547),
             (''lat_ns'', JObj [(''min'', JInt 353377760), (''max'', JInt 1697519869),
                               (''mean'', JFloat (fl 417754876.774692))])]"
  let ?job = "JObj [(''jobname'', JStr ''1_thread''), (''read'', ?read)]"
  let ?fio = "JObj [(''timestamp_ms'', JInt 1653027155355), (''jobs'', JList [?job])]"
  have "job_step ?fio (JStr []) (PInt 0) 0 ?job = Inl ValueError \<and> extract_metrics ?fio = Inl ValueError"
  proof (rule empty_filesize_aborts)
    show "truthy ?fio" by simp
    show "global_options ?fio = Inr (JStr [], PInt 0)"
      by (simp add: global_options_def key_defs err_bind_def)
    show "py_getitem ?fio JOBS = Inr (JList [?job])"
      by (simp add: key_defs)
    show "py_iter (JList [?job]) = Inr (?job # [])"
      by simp
    show "read_metrics ?job = Inr (JStr ''1_thread'', ?read, JFloat (fl 95.26093), JInt 97547,
             JInt 353377760, JInt 1697519869, JFloat (fl 417754876.774692))"
      by (simp add: read_metrics_def key_defs err_bind_def)
    show "job_options (JStr []) (PInt 0) ?job = Inr (JStr ''1'', JStr [], PInt 0)"
      by (simp add: job_options_def key_defs err_bind_def)
    show "time_window ?fio 0 ?read (PInt 0) = Inr (PInt 1653027155, 1653027216)"
      by (simp add: time_window_def key_defs err_bind_def round_div_1000_numeral Let_def)
    show "truthy (JStr ''1_thread'')" by simp
    show "\<not> num_eq_int (PInt 1653027155) 1653027216" by simp
    show "truthy (JFloat (fl 95.26093)) \<or> truthy (JInt 97547) \<or> truthy (JInt 353377760) \<or>
          truthy (JInt 1697519869) \<or> truthy (JFloat (fl 417754876.774692))" by simp
  qed
  then show ?thesis by simp
qed

end
